theory Spec2Isabelle
  imports Complex_Main "HOL-Library.Word"
begin

section \<open>JavaScript strings\<close>

text \<open>
  A JavaScript string is a sequence of UTF-16 code units; \<open>length\<close>, \<open>substring\<close>,
  \<open>lastIndexOf\<close> and \<open>split\<close> all count code units. A string literal of the source
  is written \<open>js ''...''\<close>.
\<close>

type_synonym jchar = "16 word"
type_synonym jstring = "jchar list"

definition js :: "string \<Rightarrow> jstring" where
  "js s = map of_char s"

definition LF :: jchar where
  "LF = 10"

definition SP :: jchar where
  "SP = 32"

text \<open>
  The characters removed by \<open>String.prototype.trim\<close> and \<open>trimStart\<close>: ECMAScript's
  WhiteSpace (TAB, VT, FF, SP, NBSP, ZWNBSP and the Unicode space separators) and
  LineTerminator (LF, CR, LS, PS).
\<close>

definition is_ws :: "jchar \<Rightarrow> bool" where
  "is_ws c \<longleftrightarrow>
     c = 9 \<or> c = 10 \<or> c = 11 \<or> c = 12 \<or> c = 13 \<or> c = 32 \<or> c = 160 \<or> c = 5760 \<or>
     (8192 \<le> c \<and> c \<le> 8202) \<or> c = 8232 \<or> c = 8233 \<or> c = 8239 \<or> c = 8287 \<or>
     c = 12288 \<or> c = 65279"

definition trimStart :: "jstring \<Rightarrow> jstring" where
  "trimStart s = dropWhile is_ws s"

definition trim :: "jstring \<Rightarrow> jstring" where
  "trim s = rev (dropWhile is_ws (rev (dropWhile is_ws s)))"

text \<open>
  \<open>s.lastIndexOf(c, pos)\<close> for a one-character search string: the largest index
  \<open>k \<le> pos\<close> with \<open>s[k] = c\<close>, or \<open>-1\<close>. \<open>lastIndexFrom c s k\<close> scans downwards
  from index \<open>k\<close>.
\<close>

fun lastIndexFrom :: "jchar \<Rightarrow> jstring \<Rightarrow> nat \<Rightarrow> int" where
  "lastIndexFrom c s 0 = (if s \<noteq> [] \<and> s ! 0 = c then 0 else - 1)"
| "lastIndexFrom c s (Suc k) =
     (if Suc k < length s \<and> s ! Suc k = c then int (Suc k) else lastIndexFrom c s k)"

definition lastIndexOf :: "jstring \<Rightarrow> jchar \<Rightarrow> nat \<Rightarrow> int" where
  "lastIndexOf s c pos = lastIndexFrom c s pos"

section \<open>splitMessage (utils/formatter.js)\<close>

text \<open>
  The \<open>while\<close> loop of \<open>splitMessage\<close>, with \<open>chunks\<close> as accumulator. The source
  compares \<open>splitIndex < maxLength * 0.5\<close>; on integers that is
  \<open>2 * splitIndex < maxLength\<close>. The loop need not terminate for every \<open>maxLength\<close>
  (with \<open>maxLength = 0\<close> it pushes empty chunks forever), so it is a partial function:
  \<open>None\<close> is "does not return".
\<close>

definition splitIndex_of :: "nat \<Rightarrow> jstring \<Rightarrow> int" where
  "splitIndex_of maxLength remaining =
     (let splitIndex = lastIndexOf remaining LF maxLength;
          splitIndex = (if splitIndex = - 1 \<or> 2 * splitIndex < int maxLength
                        then lastIndexOf remaining SP maxLength else splitIndex);
          splitIndex = (if splitIndex = - 1 \<or> 2 * splitIndex < int maxLength
                        then int maxLength else splitIndex)
      in splitIndex)"

partial_function (option) splitLoop :: "nat \<Rightarrow> jstring \<Rightarrow> jstring list \<Rightarrow> jstring list option"
where
  "splitLoop maxLength remaining chunks =
     (if length remaining > 0 then
        (if length remaining \<le> maxLength then Some (chunks @ [remaining])
         else let splitIndex = nat (splitIndex_of maxLength remaining)
              in splitLoop maxLength (trimStart (drop splitIndex remaining))
                   (chunks @ [take splitIndex remaining]))
      else Some chunks)"

declare splitLoop.simps [code]

definition splitMessage :: "jstring \<Rightarrow> nat \<Rightarrow> jstring list option" where
  "splitMessage content maxLength =
     (if length content \<le> maxLength then Some [content] else splitLoop maxLength content [])"

section \<open>JavaScript values\<close>

text \<open>
  The values \<open>JSON.parse\<close> can return, and \<open>undefined\<close>. A number is the value of
  an IEEE double; an object lists its members, looked up by \<open>map_of\<close>.
\<close>

datatype jsnum = Finite rat | PlusInfinity | MinusInfinity | NaN

datatype jsval =
    JUndefined
  | JNull
  | JBool bool
  | JNum jsnum
  | JStr jstring
  | JArr "jsval list"
  | JObj "(jstring \<times> jsval) list"

text \<open>What a \<open>catch (e)\<close> of the source can receive.\<close>

datatype js_error =
    SyntaxError jstring
  | CannotReadProperty jstring
  | NotIterable
  | NotAFunction jstring

text \<open>
  Built-in behaviour of the JavaScript engine that the source calls and that is kept
  abstract: \<open>JSON.parse\<close> (\<open>Inl\<close> is the thrown SyntaxError with its message), the
  string conversion of a value that is not a string (template literals), and the \<open>+\<close>
  operator when its operands are not both strings.
\<close>

record builtins =
  JSON_parse :: "jstring \<Rightarrow> js_error + jsval"
  ToString_other :: "jsval \<Rightarrow> jstring"
  plus_other :: "jsval \<Rightarrow> jsval \<Rightarrow> jsval"

fun truthy :: "jsval \<Rightarrow> bool" where
  "truthy JUndefined = False"
| "truthy JNull = False"
| "truthy (JBool b) = b"
| "truthy (JNum n) = (case n of Finite r \<Rightarrow> r \<noteq> 0 | NaN \<Rightarrow> False | _ \<Rightarrow> True)"
| "truthy (JStr s) = (s \<noteq> [])"
| "truthy (JArr xs) = True"
| "truthy (JObj kvs) = True"

definition nullish :: "jsval \<Rightarrow> bool" where
  "nullish v \<longleftrightarrow> v = JUndefined \<or> v = JNull"

text \<open>
  \<open>field v p\<close> is the property read \<open>v.p\<close> on a value that is neither \<open>null\<close> nor
  \<open>undefined\<close> (on those the read throws a TypeError, see \<open>nullish\<close>), for the property
  names the source reads: none of them is inherited from a prototype except \<open>length\<close>.
\<close>

fun field :: "jsval \<Rightarrow> jstring \<Rightarrow> jsval" where
  "field (JObj kvs) p = (case map_of kvs p of Some v \<Rightarrow> v | None \<Rightarrow> JUndefined)"
| "field (JStr s) p =
     (if p = js ''length'' then JNum (Finite (of_nat (length s))) else JUndefined)"
| "field (JArr xs) p =
     (if p = js ''length'' then JNum (Finite (of_nat (length xs))) else JUndefined)"
| "field v p = JUndefined"

definition js_or :: "jsval \<Rightarrow> jsval \<Rightarrow> jsval" where
  "js_or a b = (if truthy a then a else b)"

definition js_plus :: "builtins \<Rightarrow> jsval \<Rightarrow> jsval \<Rightarrow> jsval" where
  "js_plus B a b = (case (a, b) of (JStr x, JStr y) \<Rightarrow> JStr (x @ y) | _ \<Rightarrow> plus_other B a b)"

definition js_ToString :: "builtins \<Rightarrow> jsval \<Rightarrow> jstring" where
  "js_ToString B v = (case v of JStr s \<Rightarrow> s | _ \<Rightarrow> ToString_other B v)"

text \<open>\<open>s.split(c)\<close> for a one-character separator, and \<open>parts.join(sep)\<close>.\<close>

fun split :: "jchar \<Rightarrow> jstring \<Rightarrow> jstring list" where
  "split c [] = [[]]"
| "split c (x # xs) =
     (if x = c then [] # split c xs
      else (case split c xs of [] \<Rightarrow> [[x]] | l # ls \<Rightarrow> (x # l) # ls))"

fun join :: "jstring \<Rightarrow> jstring list \<Rightarrow> jstring" where
  "join sep [] = []"
| "join sep [p] = p"
| "join sep (p # q # ps) = p @ sep @ join sep (q # ps)"

section \<open>ClaudeSession (claude-manager.js, JSON streaming version)\<close>

record session =
  sessionId :: jsval
  workingDir :: jsval
  timeout :: nat
  process :: "nat option"
  isProcessing :: bool
  pendingResolve :: "nat option"
  pendingReject :: "nat option"
  currentOutput :: jsval
  timeoutId :: "nat option"

text \<open>The events a session emits to its listeners (\<open>this.emit(name, payload)\<close>).\<close>

datatype event =
    Session_ev jsval
  | Init_ev jsval
  | Text_ev jsval
  | Thinking_ev jsval
  | ToolUse_ev jsval jsval jsval
  | Status_ev jsval
  | Result_ev jsval
  | Event_ev jsval
  | ParseError_ev jstring js_error
  | Stderr_ev jstring

subsection \<open>shortenPath and the tool status table\<close>

text \<open>
  \<open>shortenPath(path)\<close> is only called with a truthy \<open>path\<close>. \<open>path.replace\<close> exists on
  strings only; on any other value the call throws.
\<close>

definition shortenPath :: "jsval \<Rightarrow> js_error + jstring" where
  "shortenPath path =
     (if \<not> truthy path then Inr []
      else case path of
        JStr p \<Rightarrow>
          (let parts = split (of_char CHR ''/'')
                         (map (\<lambda>c. if c = of_char (CHR 0x5C) then of_char CHR ''/'' else c) p)
           in if length parts > 2
              then Inr (js ''.../'' @ join (js ''/'') (drop (length parts - 2) parts))
              else Inr p)
      | _ \<Rightarrow> Inl (NotAFunction (js ''replace'')))"

definition tool_status :: "jsval \<Rightarrow> jsval \<Rightarrow> js_error + jsval" where
  "tool_status toolName toolInput =
     (if toolName = JStr (js ''Read'') \<and> truthy (field toolInput (js ''file_path'')) then
        map_sum id (\<lambda>p. JStr (js ''Reading '' @ p)) (shortenPath (field toolInput (js ''file_path'')))
      else if toolName = JStr (js ''Write'') \<and> truthy (field toolInput (js ''file_path'')) then
        map_sum id (\<lambda>p. JStr (js ''Writing '' @ p)) (shortenPath (field toolInput (js ''file_path'')))
      else if toolName = JStr (js ''Edit'') \<and> truthy (field toolInput (js ''file_path'')) then
        map_sum id (\<lambda>p. JStr (js ''Editing '' @ p)) (shortenPath (field toolInput (js ''file_path'')))
      else if toolName = JStr (js ''Bash'') \<and> truthy (field toolInput (js ''command'')) then
        (case field toolInput (js ''command'') of
           JStr command \<Rightarrow>
             Inr (JStr (js ''Running: '' @ take 30 command @
                        (if length command > 30 then js ''...'' else [])))
         | _ \<Rightarrow> Inl (NotAFunction (js ''substring'')))
      else if toolName = JStr (js ''Grep'') \<or> toolName = JStr (js ''Glob'') then
        Inr (JStr (js ''Searching...''))
      else if toolName = JStr (js ''WebFetch'') then Inr (JStr (js ''Fetching web content''))
      else if toolName = JStr (js ''Task'') then Inr (JStr (js ''Spawning agent...''))
      else Inr toolName)"

subsection \<open>handleJsonLine\<close>

text \<open>
  Every step returns the session as it has been mutated so far, the events emitted so
  far, and the exception if one was thrown: a throw inside \<open>try\<close> keeps the effects
  that came before it.
\<close>

type_synonym step_result = "session \<times> event list \<times> js_error option"

text \<open>One iteration of \<open>for (const block of data.message.content)\<close>.\<close>

definition handle_block :: "builtins \<Rightarrow> jsval \<Rightarrow> session \<Rightarrow> step_result" where
  "handle_block B block s =
     (if nullish block then (s, [], Some (CannotReadProperty (js ''type'')))
      else if field block (js ''type'') = JStr (js ''text'') then
        (s\<lparr>currentOutput := js_plus B (currentOutput s) (field block (js ''text''))\<rparr>,
         [Text_ev (field block (js ''text''))], None)
      else if field block (js ''type'') = JStr (js ''thinking'') then
        (s, [Thinking_ev (field block (js ''thinking''))], None)
      else if field block (js ''type'') = JStr (js ''tool_use'') then
        (let toolName = js_or (field block (js ''name'')) (JStr (js ''Tool''));
             toolInput = js_or (field block (js ''input'')) (JObj [])
         in case tool_status toolName toolInput of
              Inl e \<Rightarrow> (s, [], Some e)
            | Inr status \<Rightarrow> (s, [ToolUse_ev toolName toolInput status, Status_ev status], None))
      else (s, [], None))"

fun handle_blocks :: "builtins \<Rightarrow> jsval list \<Rightarrow> session \<Rightarrow> step_result" where
  "handle_blocks B [] s = (s, [], None)"
| "handle_blocks B (block # blocks) s =
     (case handle_block B block s of
        (s', evs, Some e) \<Rightarrow> (s', evs, Some e)
      | (s', evs, None) \<Rightarrow>
          (case handle_blocks B blocks s' of (s'', evs', r) \<Rightarrow> (s'', evs @ evs', r)))"

text \<open>
  The values \<open>for ... of\<close> iterates: the elements of an array, the characters of a
  string (each a string, on which \<open>handle_block\<close> does nothing); anything else that
  \<open>JSON.parse\<close> returns is not iterable.
\<close>

definition iterate :: "jsval \<Rightarrow> js_error + jsval list" where
  "iterate v = (case v of JArr xs \<Rightarrow> Inr xs | JStr s \<Rightarrow> Inr (map (\<lambda>c. JStr [c]) s)
                | _ \<Rightarrow> Inl NotIterable)"

text \<open>\<open>if (data.session_id && !this.sessionId) { ... }\<close> of the init and assistant cases.\<close>

definition capture_session :: "jsval \<Rightarrow> session \<Rightarrow> session \<times> event list" where
  "capture_session data s =
     (if truthy (field data (js ''session_id'')) \<and> \<not> truthy (sessionId s)
      then (s\<lparr>sessionId := field data (js ''session_id'')\<rparr>,
            [Session_ev (field data (js ''session_id''))])
      else (s, []))"

definition handle_assistant :: "builtins \<Rightarrow> jsval \<Rightarrow> session \<Rightarrow> step_result" where
  "handle_assistant B data s =
     (let message = field data (js ''message'');
          r = (if truthy message \<and> truthy (field message (js ''content''))
               then (case iterate (field message (js ''content'')) of
                       Inl e \<Rightarrow> (s, [], Some e)
                     | Inr blocks \<Rightarrow> handle_blocks B blocks s)
               else (s, [], None))
      in case r of
           (s', evs, Some e) \<Rightarrow> (s', evs, Some e)
         | (s', evs, None) \<Rightarrow>
             (case capture_session data s' of (s'', evs') \<Rightarrow> (s'', evs @ evs', None)))"

definition handle_content_block_start :: "builtins \<Rightarrow> jsval \<Rightarrow> event list" where
  "handle_content_block_start B data =
     (let content_block = field data (js ''content_block'')
      in if truthy content_block \<and> field content_block (js ''type'') = JStr (js ''tool_use'')
         then [Status_ev (JStr (js ''Using '' @
                 js_ToString B (field content_block (js ''name'')) @ js ''...''))]
         else if truthy content_block \<and> field content_block (js ''type'') = JStr (js ''thinking'')
         then [Status_ev (JStr (js ''Thinking...''))]
         else [])"

definition handle_content_block_delta :: "builtins \<Rightarrow> jsval \<Rightarrow> session \<Rightarrow> session \<times> event list"
where
  "handle_content_block_delta B data s =
     (let delta = field data (js ''delta'')
      in if truthy delta then
           (if field delta (js ''type'') = JStr (js ''thinking_delta'') \<and>
               truthy (field delta (js ''thinking''))
            then (s, [Thinking_ev (field delta (js ''thinking''))])
            else if field delta (js ''type'') = JStr (js ''text_delta'') \<and>
               truthy (field delta (js ''text''))
            then (s\<lparr>currentOutput := js_plus B (currentOutput s) (field delta (js ''text''))\<rparr>,
                  [Text_ev (field delta (js ''text''))])
            else (s, []))
         else (s, []))"

definition handle_result :: "jsval \<Rightarrow> session \<Rightarrow> session \<times> event list" where
  "handle_result data s =
     (let s1 = (if truthy (field data (js ''result''))
                then s\<lparr>currentOutput := field data (js ''result'')\<rparr> else s);
          s2 = (if truthy (field data (js ''session_id''))
                then s1\<lparr>sessionId := field data (js ''session_id'')\<rparr> else s1)
      in (s2, [Result_ev data]))"

text \<open>The body of \<open>try\<close>, after \<open>JSON.parse\<close>: \<open>switch (data.type)\<close>.\<close>

definition handle_data :: "builtins \<Rightarrow> jsval \<Rightarrow> session \<Rightarrow> step_result" where
  "handle_data B data s =
     (if nullish data then (s, [], Some (CannotReadProperty (js ''type'')))
      else if field data (js ''type'') = JStr (js ''system'') then
        (if field data (js ''subtype'') = JStr (js ''init'')
         then (case capture_session data s of (s', evs) \<Rightarrow> (s', evs @ [Init_ev data], None))
         else (s, [], None))
      else if field data (js ''type'') = JStr (js ''assistant'') then handle_assistant B data s
      else if field data (js ''type'') = JStr (js ''content_block_start'') then
        (s, handle_content_block_start B data, None)
      else if field data (js ''type'') = JStr (js ''content_block_delta'') then
        (case handle_content_block_delta B data s of (s', evs) \<Rightarrow> (s', evs, None))
      else if field data (js ''type'') = JStr (js ''result'') then
        (case handle_result data s of (s', evs) \<Rightarrow> (s', evs, None))
      else (s, [Event_ev data], None))"

definition handleJsonLine :: "builtins \<Rightarrow> jstring \<Rightarrow> session \<Rightarrow> session \<times> event list" where
  "handleJsonLine B line s =
     (case JSON_parse B line of
        Inl e \<Rightarrow> (s, [ParseError_ev line e])
      | Inr data \<Rightarrow>
          (case handle_data B data s of
             (s', evs, Some e) \<Rightarrow> (s', evs @ [ParseError_ev line e])
           | (s', evs, None) \<Rightarrow> (s', evs)))"

subsection \<open>Buffer.toString()\<close>

text \<open>
  The child's stdout delivers \<open>Buffer\<close> chunks, and the handler converts each chunk on
  its own with \<open>data.toString()\<close>: UTF-8 decoding with replacement, where every
  ill-formed or truncated sequence becomes one U+FFFD, and the result is encoded in
  UTF-16. The decoder below is the UTF-8 decoder of the Encoding Standard, which this
  conversion follows; the end of the chunk is the end of its input.
\<close>

type_synonym byte = "8 word"

record utf8_state =
  bytes_needed :: nat
  bytes_seen :: nat
  code_point :: nat
  lower_boundary :: nat
  upper_boundary :: nat

definition utf8_init :: utf8_state where
  "utf8_init = \<lparr>bytes_needed = 0, bytes_seen = 0, code_point = 0,
                 lower_boundary = 0x80, upper_boundary = 0xBF\<rparr>"

text \<open>A byte read when no sequence is open: the code points it yields and the next state.\<close>

definition utf8_lead :: "nat \<Rightarrow> nat list \<times> utf8_state" where
  "utf8_lead b =
     (if b \<le> 0x7F then ([b], utf8_init)
      else if 0xC2 \<le> b \<and> b \<le> 0xDF then
        ([], utf8_init\<lparr>bytes_needed := 1, code_point := b mod 0x20\<rparr>)
      else if 0xE0 \<le> b \<and> b \<le> 0xEF then
        ([], utf8_init\<lparr>bytes_needed := 2, code_point := b mod 0x10,
                        lower_boundary := (if b = 0xE0 then 0xA0 else 0x80),
                        upper_boundary := (if b = 0xED then 0x9F else 0xBF)\<rparr>)
      else if 0xF0 \<le> b \<and> b \<le> 0xF4 then
        ([], utf8_init\<lparr>bytes_needed := 3, code_point := b mod 0x08,
                        lower_boundary := (if b = 0xF0 then 0x90 else 0x80),
                        upper_boundary := (if b = 0xF4 then 0x8F else 0xBF)\<rparr>)
      else ([0xFFFD], utf8_init))"

fun utf8_decode :: "utf8_state \<Rightarrow> nat list \<Rightarrow> nat list" where
  "utf8_decode st [] = (if bytes_needed st \<noteq> 0 then [0xFFFD] else [])"
| "utf8_decode st (b # bs) =
     (if bytes_needed st = 0 then
        (case utf8_lead b of (out, st') \<Rightarrow> out @ utf8_decode st' bs)
      else if b < lower_boundary st \<or> upper_boundary st < b then
        (case utf8_lead b of (out, st') \<Rightarrow> 0xFFFD # out @ utf8_decode st' bs)
      else if Suc (bytes_seen st) = bytes_needed st then
        (code_point st * 0x40 + b mod 0x40) # utf8_decode utf8_init bs
      else
        utf8_decode (st\<lparr>code_point := code_point st * 0x40 + b mod 0x40,
                         bytes_seen := Suc (bytes_seen st),
                         lower_boundary := 0x80, upper_boundary := 0xBF\<rparr>) bs)"

definition utf16_encode :: "nat \<Rightarrow> jstring" where
  "utf16_encode cp =
     (if cp < 0x10000 then [of_nat cp]
      else [of_nat (0xD800 + (cp - 0x10000) div 0x400),
            of_nat (0xDC00 + (cp - 0x10000) mod 0x400)])"

definition toString :: "byte list \<Rightarrow> jstring" where
  "toString data = concat (map utf16_encode (utf8_decode utf8_init (map unat data)))"

subsection \<open>send and the handlers it installs\<close>

text \<open>
  What is outside the session object: the \<open>buffer\<close> variable of the \<open>send\<close> call in
  flight, the timers that are armed, and the number of \<open>send\<close> calls accepted so far.
  The \<open>n\<close>-th accepted \<open>send\<close> creates promise \<open>n\<close>, child process \<open>n\<close> and timer \<open>n\<close>.
\<close>

record world =
  this :: session
  buffer :: jstring
  timers :: "nat list"
  turns :: nat

datatype reject_reason = ProcessError jsval | ResponseTimeout

text \<open>
  What a handler does to the outside: emit an event, settle a promise (\<open>Resolve p output
  sessionId\<close> is \<open>resolve({output, sessionId})\<close> of promise \<open>p\<close>), spawn a child (with the
  \<open>--resume\<close> identity), write the message to its stdin, send it SIGTERM.
\<close>

datatype effect =
    Emit event
  | Resolve nat jsval jsval
  | Reject nat reject_reason
  | Spawn nat jsval
  | StdinWrite nat jsval
  | Kill nat

datatype send_error = AlreadyProcessing

definition send :: "jsval \<Rightarrow> world \<Rightarrow> (send_error + nat) \<times> world \<times> effect list" where
  "send message w =
     (if isProcessing (this w) then (Inl AlreadyProcessing, w, [])
      else let n = turns w
           in (Inr n,
               w\<lparr>this := (this w)\<lparr>isProcessing := True, pendingResolve := Some n,
                                   pendingReject := Some n, currentOutput := JStr [],
                                   process := Some n, timeoutId := Some n\<rparr>,
                  buffer := [], timers := timers w @ [n], turns := Suc n\<rparr>,
               [Spawn n (sessionId (this w)), StdinWrite n message]))"

text \<open>\<open>clearTimeout(this.timeoutId)\<close>\<close>

definition clearTimeout :: "nat option \<Rightarrow> nat list \<Rightarrow> nat list" where
  "clearTimeout tid ts = (case tid of None \<Rightarrow> ts | Some t \<Rightarrow> removeAll t ts)"

text \<open>The loop over the complete lines in the stdout handler.\<close>

fun handle_lines :: "builtins \<Rightarrow> jstring list \<Rightarrow> session \<Rightarrow> session \<times> event list" where
  "handle_lines B [] s = (s, [])"
| "handle_lines B (line # lines) s =
     (if trim line \<noteq> [] then
        (case handleJsonLine B (trim line) s of
           (s', evs) \<Rightarrow> (case handle_lines B lines s' of (s'', evs') \<Rightarrow> (s'', evs @ evs')))
      else handle_lines B lines s)"

text \<open>
  The stdout handler after \<open>buffer += data.toString()\<close>, as a function of the text
  appended; \<open>lines.pop()\<close> is the last element of a list that is never empty.
\<close>

definition on_stdout_text :: "builtins \<Rightarrow> jstring \<Rightarrow> world \<Rightarrow> world \<times> effect list" where
  "on_stdout_text B text w =
     (let lines = split LF (buffer w @ text)
      in case handle_lines B (butlast lines) (this w) of
           (s', evs) \<Rightarrow> (w\<lparr>this := s', buffer := last lines\<rparr>, map Emit evs))"

definition on_stdout :: "builtins \<Rightarrow> byte list \<Rightarrow> world \<Rightarrow> world \<times> effect list" where
  "on_stdout B data w = on_stdout_text B (toString data) w"

definition on_stderr :: "byte list \<Rightarrow> world \<Rightarrow> world \<times> effect list" where
  "on_stderr data w = (w, [Emit (Stderr_ev (toString data))])"

text \<open>The \<open>close\<close> handler; its parameter \<open>code\<close> is the exit code (\<open>null\<close> after a signal).\<close>

definition on_close :: "int option \<Rightarrow> world \<Rightarrow> world \<times> effect list" where
  "on_close code w =
     (let s = (this w)\<lparr>isProcessing := False, process := None\<rparr>;
          ts = clearTimeout (timeoutId s) (timers w)
      in case pendingResolve s of
           Some p \<Rightarrow> (w\<lparr>this := s\<lparr>pendingResolve := None, pendingReject := None\<rparr>, timers := ts\<rparr>,
                      [Resolve p (currentOutput s) (sessionId s)])
         | None \<Rightarrow> (w\<lparr>this := s, timers := ts\<rparr>, []))"

definition on_error :: "jsval \<Rightarrow> world \<Rightarrow> world \<times> effect list" where
  "on_error err w =
     (let s = (this w)\<lparr>isProcessing := False, process := None\<rparr>;
          ts = clearTimeout (timeoutId s) (timers w)
      in case pendingReject s of
           Some p \<Rightarrow> (w\<lparr>this := s\<lparr>pendingResolve := None, pendingReject := None\<rparr>, timers := ts\<rparr>,
                      [Reject p (ProcessError err)])
         | None \<Rightarrow> (w\<lparr>this := s, timers := ts\<rparr>, []))"

text \<open>
  Expiry of timer \<open>t\<close>. A timer that was cleared, or that has fired, does not fire; a
  timer that fires is no longer armed.
\<close>

definition on_timeout :: "nat \<Rightarrow> world \<Rightarrow> world \<times> effect list" where
  "on_timeout t w =
     (if t \<notin> set (timers w) then (w, [])
      else let w1 = w\<lparr>timers := removeAll t (timers w)\<rparr>
           in case process (this w1) of
                None \<Rightarrow> (w1, [])
              | Some pid \<Rightarrow>
                  (case pendingReject (this w1) of
                     Some p \<Rightarrow> (w1\<lparr>this := (this w1)\<lparr>pendingResolve := None,
                                                      pendingReject := None\<rparr>\<rparr>,
                                [Kill pid, Reject p ResponseTimeout])
                   | None \<Rightarrow> (w1, [Kill pid])))"

definition kill :: "world \<Rightarrow> world \<times> effect list" where
  "kill w =
     (let effs = (case process (this w) of Some pid \<Rightarrow> [Kill pid] | None \<Rightarrow> [])
      in (w\<lparr>this := (this w)\<lparr>process := None, isProcessing := False\<rparr>,
            timers := clearTimeout (timeoutId (this w)) (timers w)\<rparr>, effs))"

text \<open>What can happen to a session while a turn is in flight, and a run of such events.\<close>

datatype proc_event =
    Stdout "byte list"
  | Stderr "byte list"
  | Close "int option"
  | Error jsval
  | Timeout nat

fun handle :: "builtins \<Rightarrow> proc_event \<Rightarrow> world \<Rightarrow> world \<times> effect list" where
  "handle B (Stdout data) w = on_stdout B data w"
| "handle B (Stderr data) w = on_stderr data w"
| "handle B (Close code) w = on_close code w"
| "handle B (Error err) w = on_error err w"
| "handle B (Timeout t) w = on_timeout t w"

fun run :: "builtins \<Rightarrow> proc_event list \<Rightarrow> world \<Rightarrow> world \<times> effect list" where
  "run B [] w = (w, [])"
| "run B (ev # evs) w =
     (case handle B ev w of
        (w', effs) \<Rightarrow> (case run B evs w' of (w'', effs') \<Rightarrow> (w'', effs @ effs')))"

text \<open>
  \<open>new ClaudeSession(options)\<close> with the two options the registry passes; \<open>cwd\<close> is
  \<open>process.cwd()\<close>, and with no \<open>timeout\<close> option the timeout is 300000 ms.
\<close>

record options =
  opt_sessionId :: jsval
  opt_workingDir :: jsval

definition new_ClaudeSession :: "jsval \<Rightarrow> options \<Rightarrow> session" where
  "new_ClaudeSession cwd opts =
     \<lparr>sessionId = js_or (opt_sessionId opts) JNull,
      workingDir = js_or (opt_workingDir opts) cwd,
      timeout = 300000,
      process = None, isProcessing = False, pendingResolve = None, pendingReject = None,
      currentOutput = JStr [], timeoutId = None\<rparr>"

text \<open>Several \<open>send\<close> calls one after the other, with no handler running in between.\<close>

fun sends :: "jsval list \<Rightarrow> world \<Rightarrow> (send_error + nat) list \<times> world \<times> effect list" where
  "sends [] w = ([], w, [])"
| "sends (m # ms) w =
     (case send m w of
        (r, w', effs) \<Rightarrow> (case sends ms w' of (rs, w'', effs') \<Rightarrow> (r # rs, w'', effs @ effs')))"

section \<open>Concrete inputs\<close>

text \<open>
  A session as the registry constructs it when no options are given, on its own in a
  world with no timers, and an engine whose \<open>JSON.parse\<close> is given by a table of
  lines and their values (every other line is a syntax error).
\<close>

definition no_options :: options where
  "no_options = \<lparr>opt_sessionId = JUndefined, opt_workingDir = JUndefined\<rparr>"

definition fresh_world :: world where
  "fresh_world =
     \<lparr>this = new_ClaudeSession (JStr (js ''/work'')) no_options,
      buffer = [], timers = [], turns = 0\<rparr>"

definition parse_table :: "(jstring \<times> jsval) list \<Rightarrow> builtins" where
  "parse_table tab =
     \<lparr>JSON_parse = (\<lambda>line. case map_of tab line of
                               Some v \<Rightarrow> Inr v
                             | None \<Rightarrow> Inl (SyntaxError (js ''Unexpected token''))),
      ToString_other = (\<lambda>v. js ''[object Object]''),
      plus_other = (\<lambda>a b. JNum NaN)\<rparr>"

section \<open>Predicates on sessions, effects and events\<close>

text \<open>
  \<open>only_decoder_fields s s'\<close>: of the fields of the session, at most \<open>sessionId\<close> and
  \<open>currentOutput\<close> differ between \<open>s\<close> and \<open>s'\<close>.
\<close>

definition only_decoder_fields :: "session \<Rightarrow> session \<Rightarrow> bool" where
  "only_decoder_fields s s' \<longleftrightarrow>
     workingDir s' = workingDir s \<and> timeout s' = timeout s \<and> process s' = process s \<and>
     isProcessing s' = isProcessing s \<and> pendingResolve s' = pendingResolve s \<and>
     pendingReject s' = pendingReject s \<and> timeoutId s' = timeoutId s"

text \<open>
  The settlements of promise \<open>n\<close> among some effects: the calls of its \<open>resolve\<close> and
  of its \<open>reject\<close>. An event ends turn \<open>n\<close> when it is the close or an error of the
  child, or the expiry of the turn's timer.
\<close>

fun is_settle :: "nat \<Rightarrow> effect \<Rightarrow> bool" where
  "is_settle n (Resolve p out sid) = (p = n)"
| "is_settle n (Reject p reason) = (p = n)"
| "is_settle n eff = False"

definition settlements :: "nat \<Rightarrow> effect list \<Rightarrow> effect list" where
  "settlements n effs = filter (is_settle n) effs"

fun ends_turn :: "nat \<Rightarrow> proc_event \<Rightarrow> bool" where
  "ends_turn n (Close code) = True"
| "ends_turn n (Error err) = True"
| "ends_turn n (Timeout t) = (t = n)"
| "ends_turn n ev = False"

text \<open>
  The two states of a turn: in flight as \<open>send\<close> left it (both continuations pending,
  child alive, its timer the only one armed), and settled.
\<close>

definition in_flight :: "nat \<Rightarrow> world \<Rightarrow> bool" where
  "in_flight n w \<longleftrightarrow>
     pendingResolve (this w) = Some n \<and> pendingReject (this w) = Some n \<and>
     process (this w) = Some n \<and> timeoutId (this w) = Some n \<and> timers w = [n]"

definition settled :: "world \<Rightarrow> bool" where
  "settled w \<longleftrightarrow> pendingResolve (this w) = None \<and> pendingReject (this w) = None"

text \<open>
  The armed timers of a session are at most the one its \<open>timeoutId\<close> names, and an
  idle session has none.
\<close>

definition timers_owned :: "world \<Rightarrow> bool" where
  "timers_owned w \<longleftrightarrow>
     set (timers w) \<subseteq> set_option (timeoutId (this w)) \<and>
     (\<not> isProcessing (this w) \<longrightarrow> timers w = [])"

section \<open>Reading a turn's events\<close>

text \<open>
  The payloads of the \<open>text\<close> events among some events, in order, and their
  concatenation with the \<open>+\<close> of the source, starting from the empty string as
  \<open>send\<close> does.
\<close>

fun text_deltas :: "event list \<Rightarrow> jsval list" where
  "text_deltas [] = []"
| "text_deltas (Text_ev v # evs) = v # text_deltas evs"
| "text_deltas (ev # evs) = text_deltas evs"

definition concat_js :: "builtins \<Rightarrow> jsval list \<Rightarrow> jsval" where
  "concat_js B vs = foldl (js_plus B) (JStr []) vs"

text \<open>
  The lines the stdout handler passes to \<open>handleJsonLine\<close>: the complete lines,
  trimmed, that are not blank.
\<close>

definition decoded_lines :: "jstring list \<Rightarrow> jstring list" where
  "decoded_lines lines = filter (\<lambda>l. l \<noteq> []) (map trim lines)"

text \<open>
  A line is a result record when it parses to a value whose \<open>type\<close> is \<open>"result"\<close>.
  \<open>result_field\<close> is the \<open>result\<close> member it carries (\<open>JUndefined\<close> when it has none),
  \<open>final_output_of\<close> the final output the \<open>result\<close> case of the decoder takes from it:
  its \<open>result\<close> member when that is truthy.
\<close>

definition is_result_line :: "builtins \<Rightarrow> jstring \<Rightarrow> bool" where
  "is_result_line B line =
     (case JSON_parse B line of
        Inl e \<Rightarrow> False
      | Inr data \<Rightarrow> field data (js ''type'') = JStr (js ''result''))"

definition result_field :: "builtins \<Rightarrow> jstring \<Rightarrow> jsval" where
  "result_field B line =
     (case JSON_parse B line of Inl e \<Rightarrow> JUndefined | Inr data \<Rightarrow> field data (js ''result''))"

definition final_output_of :: "builtins \<Rightarrow> jstring \<Rightarrow> jsval option" where
  "final_output_of B line =
     (if is_result_line B line \<and> truthy (result_field B line)
      then Some (result_field B line) else None)"

text \<open>The \<open>session_id\<close> member a line carries (\<open>JUndefined\<close> when it has none).\<close>

definition session_field :: "builtins \<Rightarrow> jstring \<Rightarrow> jsval" where
  "session_field B line =
     (case JSON_parse B line of Inl e \<Rightarrow> JUndefined | Inr data \<Rightarrow> field data (js ''session_id''))"

text \<open>The lines decoded in a turn whose child writes the given chunks to stdout.\<close>

definition turn_lines :: "byte list list \<Rightarrow> jstring list" where
  "turn_lines chunks = decoded_lines (butlast (split LF (concat (map toString chunks))))"

section \<open>Concrete records\<close>

text \<open>Lines of the stream-json output, and the values \<open>JSON.parse\<close> gives for them.\<close>

definition line_init_A :: jstring where
  \<open>line_init_A = js ''{"type":"system","subtype":"init","session_id":"A"}''\<close>

definition record_init_A :: jsval where
  "record_init_A =
     JObj [(js ''type'', JStr (js ''system'')), (js ''subtype'', JStr (js ''init'')),
           (js ''session_id'', JStr (js ''A''))]"

definition line_assistant_B :: jstring where
  \<open>line_assistant_B =
     js ''{"type":"assistant","message":{"content":[{"type":"text","text":"abc"}]},"session_id":"B"}''\<close>

definition record_assistant_B :: jsval where
  "record_assistant_B =
     JObj [(js ''type'', JStr (js ''assistant'')),
           (js ''message'', JObj [(js ''content'',
              JArr [JObj [(js ''type'', JStr (js ''text'')), (js ''text'', JStr (js ''abc''))]])]),
           (js ''session_id'', JStr (js ''B''))]"

definition line_delta :: jstring where
  \<open>line_delta = js ''{"type":"content_block_delta","delta":{"type":"text_delta","text":"def"}}''\<close>

definition record_delta :: jsval where
  "record_delta =
     JObj [(js ''type'', JStr (js ''content_block_delta'')),
           (js ''delta'', JObj [(js ''type'', JStr (js ''text_delta'')),
                                (js ''text'', JStr (js ''def''))])]"

definition line_result_B :: jstring where
  \<open>line_result_B = js ''{"type":"result","subtype":"success","result":"xyz","session_id":"B"}''\<close>

definition record_result_B :: jsval where
  "record_result_B =
     JObj [(js ''type'', JStr (js ''result'')), (js ''subtype'', JStr (js ''success'')),
           (js ''result'', JStr (js ''xyz'')), (js ''session_id'', JStr (js ''B''))]"

definition line_result_empty :: jstring where
  \<open>line_result_empty = js ''{"type":"result","subtype":"success","result":""}''\<close>

definition record_result_empty :: jsval where
  "record_result_empty =
     JObj [(js ''type'', JStr (js ''result'')), (js ''subtype'', JStr (js ''success'')),
           (js ''result'', JStr [])]"

definition line_not_json :: jstring where
  "line_not_json = js ''{not json''"

definition engine :: builtins where
  "engine = parse_table
     [(line_init_A, record_init_A), (line_assistant_B, record_assistant_B),
      (line_delta, record_delta), (line_result_B, record_result_B),
      (line_result_empty, record_result_empty)]"

section \<open>A record whose text is not ASCII\<close>

text \<open>
  The bytes of an assistant record with the text \<open>U+00E9\<close> (in UTF-8 the two bytes
  \<open>C3 A9\<close>) and a newline, cut between the two bytes of the character; and the
  assistant record with a given text, as a line and as the value \<open>JSON.parse\<close> gives.
\<close>

definition ascii :: "string \<Rightarrow> byte list" where
  "ascii s = map of_char s"

definition text_record :: "jstring \<Rightarrow> jsval" where
  "text_record t =
     JObj [(js ''type'', JStr (js ''assistant'')),
           (js ''message'', JObj [(js ''content'',
              JArr [JObj [(js ''type'', JStr (js ''text'')), (js ''text'', JStr t)]])])]"

definition text_line :: "jstring \<Rightarrow> jstring" where
  \<open>text_line t =
     js ''{"type":"assistant","message":{"content":[{"type":"text","text":"'' @ t @ js ''"}]}}''\<close>

definition chunk_a :: "byte list" where
  \<open>chunk_a = ascii ''{"type":"assistant","message":{"content":[{"type":"text","text":"'' @ [0xC3]\<close>

definition chunk_b :: "byte list" where
  \<open>chunk_b = [0xA9] @ ascii ''"}]}}'' @ [0x0A]\<close>

definition engine_utf8 :: builtins where
  "engine_utf8 = parse_table
     [(text_line [0xE9], text_record [0xE9]),
      (text_line [0xFFFD, 0xFFFD], text_record [0xFFFD, 0xFFFD])]"

section \<open>Concrete turns\<close>

text \<open>
  What the child writes in three turns, each in one chunk: an assistant record with the
  text \<open>abc\<close> followed by a result record whose \<open>result\<close> is the empty string, by a
  text delta \<open>def\<close>, and by a result record whose \<open>result\<close> is \<open>xyz\<close>.
\<close>

definition chunk_text_then_empty_result :: "byte list" where
  \<open>chunk_text_then_empty_result =
     ascii ''{"type":"assistant","message":{"content":[{"type":"text","text":"abc"}]},"session_id":"B"}'' @ [0x0A] @
     ascii ''{"type":"result","subtype":"success","result":""}'' @ [0x0A]\<close>

definition chunk_text_then_delta :: "byte list" where
  \<open>chunk_text_then_delta =
     ascii ''{"type":"assistant","message":{"content":[{"type":"text","text":"abc"}]},"session_id":"B"}'' @ [0x0A] @
     ascii ''{"type":"content_block_delta","delta":{"type":"text_delta","text":"def"}}'' @ [0x0A]\<close>

definition chunk_text_then_result :: "byte list" where
  \<open>chunk_text_then_result =
     ascii ''{"type":"assistant","message":{"content":[{"type":"text","text":"abc"}]},"session_id":"B"}'' @ [0x0A] @
     ascii ''{"type":"result","subtype":"success","result":"xyz","session_id":"B"}'' @ [0x0A]\<close>

section \<open>The session registry (claude-manager.js)\<close>

text \<open>
  \<open>const sessions = new Map()\<close>, keyed by the string \<open>`${channelId}_${userId}`\<close>. An
  entry is a session object together with what belongs to it (its timers and the
  variables of its \<open>send\<close> call). Both versions of the manager build the key in this
  way; the functions below are those of the JSON streaming version.
\<close>

type_synonym registry = "jstring \<rightharpoonup> world"

definition underscore :: jchar where
  "underscore = of_char CHR ''_''"

definition session_key :: "jstring \<Rightarrow> jstring \<Rightarrow> jstring" where
  "session_key channelId userId = channelId @ [underscore] @ userId"

definition getOrCreateSession ::
  "jstring \<Rightarrow> jstring \<Rightarrow> options \<Rightarrow> jsval \<Rightarrow> registry \<Rightarrow> world \<times> registry" where
  "getOrCreateSession channelId userId opts cwd sessions =
     (let key = session_key channelId userId
      in case sessions key of
           None \<Rightarrow>
             (let session = \<lparr>this = new_ClaudeSession cwd opts, buffer = [], timers = [], turns = 0\<rparr>
              in (session, sessions(key \<mapsto> session)))
         | Some session \<Rightarrow>
             (let s1 = (if truthy (opt_sessionId opts)
                        then (this session)\<lparr>sessionId := opt_sessionId opts\<rparr> else this session);
                  s2 = (if truthy (opt_workingDir opts)
                        then s1\<lparr>workingDir := opt_workingDir opts\<rparr> else s1);
                  session' = session\<lparr>this := s2\<rparr>
              in (session', sessions(key \<mapsto> session'))))"

definition getSession :: "jstring \<Rightarrow> jstring \<Rightarrow> registry \<Rightarrow> world option" where
  "getSession channelId userId sessions = sessions (session_key channelId userId)"

definition removeSession :: "jstring \<Rightarrow> jstring \<Rightarrow> registry \<Rightarrow> bool \<times> registry \<times> effect list" where
  "removeSession channelId userId sessions =
     (let key = session_key channelId userId
      in case sessions key of
           Some session \<Rightarrow> (True, sessions(key := None), snd (kill session))
         | None \<Rightarrow> (False, sessions(key := None), []))"

section \<open>The streamed reply (bot.js, handleMessage)\<close>

subsection \<open>formatStructuredOutput and formatError (utils/formatter.js)\<close>

text \<open>
  What the \<open>catch\<close> blocks of the handler can receive: the error of a rejected
  \<open>send\<close> (it was busy, or the turn was rejected), or a value thrown by a later step.
\<close>

datatype caught = Busy | Rejected reject_reason | Threw jsval

text \<open>
  What the formatter uses and is kept abstract: \<open>cleanOutput\<close> (it calls the
  \<open>strip-ansi\<close> package), the emoji of the three literals, the frames of the progress
  bar by index, and \<open>error.toString()\<close>.
\<close>

record formatter =
  cleanOutput :: "jsval \<Rightarrow> jstring"
  thinking_mark :: jstring
  tool_mark :: jstring
  error_mark :: jstring
  progressFrame :: "nat \<Rightarrow> jstring"
  error_toString :: "caught \<Rightarrow> jsval"

datatype display_mode = Raw | Clean

datatype block_type = TextBlock | ThinkingBlock | ToolBlock

record block =
  btype :: block_type
  block_content :: jsval

definition processing_placeholder :: jstring where
  "processing_placeholder = js ''*(Processing...)*''"

text \<open>One iteration of the loop of the raw mode, on \<open>(output, lastType)\<close>.\<close>

definition raw_step :: "formatter \<Rightarrow> jstring \<times> block_type option \<Rightarrow> block \<Rightarrow> jstring \<times> block_type option"
where
  "raw_step F acc b =
     (case acc of (output, lastType) \<Rightarrow>
        (let cleaned = cleanOutput F (block_content b)
         in if cleaned = [] then (output, lastType)
            else (case btype b of
                    ThinkingBlock \<Rightarrow>
                      (output @
                       (if lastType \<noteq> None \<and> lastType \<noteq> Some ThinkingBlock then [LF] else []) @
                       js ''-# '' @ thinking_mark F @ js '' '' @ take 150 cleaned @
                       (if length cleaned > 150 then js ''...'' else []) @ [LF],
                       Some ThinkingBlock)
                  | ToolBlock \<Rightarrow>
                      (output @
                       (if lastType \<noteq> None \<and> lastType \<noteq> Some ToolBlock then [LF] else []) @
                       js ''-# '' @ tool_mark F @ js '' '' @ cleaned @ [LF],
                       Some ToolBlock)
                  | TextBlock \<Rightarrow>
                      (output @
                       (if lastType = Some ThinkingBlock \<or> lastType = Some ToolBlock
                        then [LF] else []) @ cleaned,
                       Some TextBlock))))"

definition formatStructuredOutput :: "formatter \<Rightarrow> block list \<Rightarrow> display_mode \<Rightarrow> jstring" where
  "formatStructuredOutput F blocks mode =
     (case mode of
        Clean \<Rightarrow>
          (let out = concat (map (\<lambda>b. cleanOutput F (block_content b))
                              (filter (\<lambda>b. btype b = TextBlock) blocks))
           in if out = [] then processing_placeholder else out)
      | Raw \<Rightarrow>
          (let output = fst (foldl (raw_step F) ([], None) blocks)
           in if output = [] then processing_placeholder else output))"

definition formatError :: "formatter \<Rightarrow> caught \<Rightarrow> jstring" where
  "formatError F error =
     error_mark F @ js '' **Error**'' @ [LF] @ js ''```'' @ [LF] @
     cleanOutput F (error_toString F error) @ [LF] @ js ''```''"

definition MAX_MESSAGE_LENGTH :: nat where
  "MAX_MESSAGE_LENGTH = 2000"

subsection \<open>The stream state and updateMessage\<close>

text \<open>Decimal digits of an integer, as a template literal prints it.\<close>

fun show_nat :: "nat \<Rightarrow> jstring" where
  "show_nat n =
     (if n < 10 then [of_nat (48 + n)] else show_nat (n div 10) @ [of_nat (48 + n mod 10)])"

declare show_nat.simps [simp del]

definition show_int :: "int \<Rightarrow> jstring" where
  "show_int i = (if i < 0 then js ''-'' @ show_nat (nat (- i)) else show_nat (nat i))"

text \<open>JavaScript's \<open>%\<close> on integers: the sign of the result is the sign of the dividend.\<close>

definition js_rem :: "int \<Rightarrow> int \<Rightarrow> int" where
  "js_rem a b = (if a < 0 then - ((- a) mod \<bar>b\<bar>) else a mod \<bar>b\<bar>)"

record stream_state =
  streamBlocks :: "block list"
  lastUpdateTime :: int
  pendingQuestion :: jsval
  currentStatus :: jsval
  startTime :: int
  frameIndex :: nat

text \<open>
  The state when the reply message has been posted; \<open>t0\<close> and \<open>t1\<close> are the two
  readings of \<open>Date.now()\<close>.
\<close>

definition initial_stream :: "int \<Rightarrow> int \<Rightarrow> stream_state" where
  "initial_stream t0 t1 =
     \<lparr>streamBlocks = [], lastUpdateTime = t0, pendingQuestion = JNull,
      currentStatus = JStr (js ''Thinking...''), startTime = t1, frameIndex = 0\<rparr>"

text \<open>\<open>formatStatusLine()\<close>, with \<open>now\<close> its reading of \<open>Date.now()\<close>; it advances the frame.\<close>

definition formatStatusLine ::
  "builtins \<Rightarrow> formatter \<Rightarrow> int \<Rightarrow> stream_state \<Rightarrow> jstring \<times> stream_state" where
  "formatStatusLine B F now st =
     (let elapsed = (now - startTime st) div 1000;
          mins = elapsed div 60;
          secs = js_rem elapsed 60;
          timeStr = (if mins > 0 then show_int mins @ js ''m '' @ show_int secs @ js ''s''
                     else show_int secs @ js ''s'');
          frame = progressFrame F (frameIndex st mod 11)
      in ([LF] @ frame @ js '' '' @ js_ToString B (currentStatus st) @ js '' *('' @ timeStr @
            js '')*'',
          st\<lparr>frameIndex := Suc (frameIndex st)\<rparr>))"

text \<open>
  The calls the handler makes to Discord: an edit of the reply message, a new message
  in the channel, a new message with an embed (given by its description).
\<close>

datatype delivery = Edit jstring | Send jstring | SendEmbed jstring

text \<open>
  \<open>updateMessage(final)\<close>. \<open>now\<close> is its reading of \<open>Date.now()\<close>, \<open>now'\<close> the reading in
  \<open>formatStatusLine\<close>, \<open>mode\<close> what \<open>getDisplayMode\<close> returns. \<open>None\<close>: \<open>splitMessage\<close>
  does not return. An edit that fails is caught and changes nothing.
\<close>

definition updateMessage ::
  "builtins \<Rightarrow> formatter \<Rightarrow> bool \<Rightarrow> int \<Rightarrow> int \<Rightarrow> display_mode \<Rightarrow> stream_state \<Rightarrow>
     (stream_state \<times> delivery list) option" where
  "updateMessage B F final now now' mode st =
     (if \<not> final \<and> now - lastUpdateTime st < 1000 then Some (st, [])
      else let st1 = st\<lparr>lastUpdateTime := now\<rparr>;
               formatted = formatStructuredOutput F (streamBlocks st1) mode;
               (formatted, st2) =
                  (if \<not> final
                   then (case formatStatusLine B F now' st1 of
                           (line, st2) \<Rightarrow> (formatted @ line, st2))
                   else (formatted, st1))
           in case splitMessage (if formatted = [] then js ''Processing...'' else formatted)
                     MAX_MESSAGE_LENGTH of
                None \<Rightarrow> None
              | Some chunks \<Rightarrow> Some (st2, if chunks \<noteq> [] then [Edit (hd chunks)] else []))"

text \<open>
  What calls \<open>updateMessage()\<close> during a turn: the four listeners on the session and
  the 800 ms interval timer.
\<close>

datatype ui_event =
    OnText jsval
  | OnThinking jsval
  | OnTool jsval jsval jsval
  | OnStatus jsval
  | Tick

record call =
  call_event :: ui_event
  call_now :: int
  call_now_status :: int
  call_mode :: display_mode

fun listener :: "builtins \<Rightarrow> ui_event \<Rightarrow> stream_state \<Rightarrow> stream_state" where
  "listener B (OnText text) st =
     st\<lparr>streamBlocks := streamBlocks st @ [\<lparr>btype = TextBlock, block_content = text\<rparr>]\<rparr>"
| "listener B (OnThinking think) st =
     st\<lparr>currentStatus := JStr (js ''Thinking...''),
        streamBlocks := streamBlocks st @ [\<lparr>btype = ThinkingBlock, block_content = think\<rparr>]\<rparr>"
| "listener B (OnTool name input status) st =
     (let st1 = (if name = JStr (js ''AskUserQuestion'') \<and> truthy input \<and>
                    truthy (field input (js ''questions''))
                 then st\<lparr>pendingQuestion := input\<rparr> else st)
      in st1\<lparr>currentStatus := js_or status (JStr (js ''Using '' @ js_ToString B name)),
             streamBlocks := streamBlocks st1 @ [\<lparr>btype = ToolBlock, block_content = js_or status name\<rparr>]\<rparr>)"
| "listener B (OnStatus status) st = st\<lparr>currentStatus := status\<rparr>"
| "listener B Tick st = st"

definition on_call ::
  "builtins \<Rightarrow> formatter \<Rightarrow> call \<Rightarrow> stream_state \<Rightarrow> (stream_state \<times> delivery list) option" where
  "on_call B F c st = updateMessage B F False (call_now c) (call_now_status c) (call_mode c) (listener B (call_event c) st)"

fun stream :: "builtins \<Rightarrow> formatter \<Rightarrow> call list \<Rightarrow> stream_state \<Rightarrow>
    (stream_state \<times> delivery list) option" where
  "stream B F [] st = Some (st, [])"
| "stream B F (c # cs) st =
     (case on_call B F c st of
        None \<Rightarrow> None
      | Some (st', ds) \<Rightarrow>
          (case stream B F cs st' of None \<Rightarrow> None | Some (st'', ds') \<Rightarrow> Some (st'', ds @ ds')))"

text \<open>
  The outcome of \<open>await session.send(contentArray)\<close>: the value the promise is
  resolved with (output and identity), or what the \<open>await\<close> throws.
\<close>

datatype completion = Succeeded jsval jsval | Failed caught

text \<open>The blocks the listeners push for some calls, in order.\<close>

definition pushed_blocks :: "call list \<Rightarrow> block list" where
  "pushed_blocks cs =
     concat (map (\<lambda>c. case call_event c of
                          OnText text \<Rightarrow> [\<lparr>btype = TextBlock, block_content = text\<rparr>]
                        | OnThinking think \<Rightarrow> [\<lparr>btype = ThinkingBlock, block_content = think\<rparr>]
                        | OnTool name input status \<Rightarrow>
                            [\<lparr>btype = ToolBlock, block_content = js_or status name\<rparr>]
                        | _ \<Rightarrow> []) cs)"

subsection \<open>After the turn: final update, catch and finally\<close>

text \<open>
  The interval timer and the listeners stay installed until \<open>finally\<close>, so while the
  handler awaits a call to Discord they can still call \<open>updateMessage()\<close>. An await of
  the handler is given by the calls that happen during it and by what the awaited call
  throws, if it throws. The awaits of a run are consumed in order; when none is left,
  nothing happens during an await and it does not throw.
\<close>

record await =
  await_during :: "call list"
  await_throws :: "jsval option"

definition next_await :: "await list \<Rightarrow> await" where
  "next_await env = (case env of [] \<Rightarrow> \<lparr>await_during = [], await_throws = None\<rparr> | a # _ \<Rightarrow> a)"

text \<open>
  Where in the handler a call to Discord is made: in \<open>updateMessage\<close>, in the final
  update, for the question embed, in the \<open>catch\<close> of the turn, in the outer \<open>catch\<close>.
\<close>

datatype site = InUpdate | InFinal | InQuestion | InCatch | InOuterCatch

type_synonym trace = "(site \<times> delivery) list"

text \<open>
  Awaited calls made one after the other. Each call is issued, the calls of the
  listeners and of the timer during its await make their deliveries, and then the call
  returns or throws; a throw ends the sequence. The result is the state, the calls to
  Discord in the order they were made, the awaits left, and what was thrown.
\<close>

fun perform ::
  "builtins \<Rightarrow> formatter \<Rightarrow> trace \<Rightarrow> await list \<Rightarrow> stream_state \<Rightarrow>
     (stream_state \<times> trace \<times> await list \<times> jsval option) option" where
  "perform B F [] env st = Some (st, [], env, None)"
| "perform B F (c # calls) env st =
     (case stream B F (await_during (next_await env)) st of
        None \<Rightarrow> None
      | Some (st', ds) \<Rightarrow>
          (case await_throws (next_await env) of
             Some e \<Rightarrow> Some (st', c # map (Pair InUpdate) ds, tl env, Some e)
           | None \<Rightarrow>
               (case perform B F calls (tl env) st' of
                  None \<Rightarrow> None
                | Some (st'', tr, env', r) \<Rightarrow>
                    Some (st'', (c # map (Pair InUpdate) ds) @ tr, env', r))))"

text \<open>
  \<open>catch (error) { await replyMessage.edit(formatError(error)) }\<close>, then \<open>finally\<close>, which
  clears the interval and removes the listeners; when the edit throws, the outer
  \<open>catch\<close> sends the error of the edit to the channel.
\<close>

definition catch_phase ::
  "builtins \<Rightarrow> formatter \<Rightarrow> caught \<Rightarrow> await list \<Rightarrow> stream_state \<Rightarrow> trace option" where
  "catch_phase B F error env st =
     (case perform B F [(InCatch, Edit (formatError F error))] env st of
        None \<Rightarrow> None
      | Some (st', tr, env', None) \<Rightarrow> Some tr
      | Some (st', tr, env', Some e) \<Rightarrow>
          Some (tr @ [(InOuterCatch, Send (formatError F (Threw e)))]))"

text \<open>
  What is kept abstract after the final update: the description of the question embed
  built from \<open>pendingQuestion\<close> with discord.js (\<open>Inl\<close>: building it throws), and the
  session store, given by what its calls throw, if they throw.
\<close>

record collaborators =
  question_embed :: "jsval \<Rightarrow> jsval + jstring"
  store_throws :: "jsval option"

definition final_calls :: "jstring list \<Rightarrow> trace" where
  "final_calls chunks =
     (if chunks \<noteq> [] then (InFinal, Edit (hd chunks)) # map (\<lambda>c. (InFinal, Send c)) (tl chunks)
      else [])"

text \<open>The writes to the store, last in the \<open>try\<close>; \<open>tr\<close> is what was done before.\<close>

definition store_step ::
  "builtins \<Rightarrow> formatter \<Rightarrow> collaborators \<Rightarrow> trace \<Rightarrow> await list \<Rightarrow> stream_state \<Rightarrow> trace option"
where
  "store_step B F X tr env st =
     (case store_throws X of
        None \<Rightarrow> Some tr
      | Some e \<Rightarrow> map_option (\<lambda>tr'. tr @ tr') (catch_phase B F (Threw e) env st))"

text \<open>
  The \<open>try\<close> after \<open>await session.send(contentArray)\<close> with its \<open>catch\<close> and \<open>finally\<close>:
  the final update (it does not read the clock), the question embed, the store.
\<close>

definition final_phase ::
  "builtins \<Rightarrow> formatter \<Rightarrow> collaborators \<Rightarrow> display_mode \<Rightarrow> completion \<Rightarrow> await list \<Rightarrow>
     stream_state \<Rightarrow> trace option" where
  "final_phase B F X mode outcome env st =
     (case outcome of
        Failed error \<Rightarrow> catch_phase B F error env st
      | Succeeded output sid \<Rightarrow>
          (case splitMessage (formatStructuredOutput F (streamBlocks st) mode) MAX_MESSAGE_LENGTH of
             None \<Rightarrow> None
           | Some chunks \<Rightarrow>
               (case perform B F (final_calls chunks) env st of
                  None \<Rightarrow> None
                | Some (st1, tr1, env1, Some e) \<Rightarrow>
                    map_option (\<lambda>tr'. tr1 @ tr') (catch_phase B F (Threw e) env1 st1)
                | Some (st1, tr1, env1, None) \<Rightarrow>
                    (if truthy (pendingQuestion st1) \<and>
                        truthy (field (pendingQuestion st1) (js ''questions''))
                     then (case question_embed X (pendingQuestion st1) of
                             Inl e \<Rightarrow>
                               map_option (\<lambda>tr'. tr1 @ tr') (catch_phase B F (Threw e) env1 st1)
                           | Inr desc \<Rightarrow>
                               (case perform B F [(InQuestion, SendEmbed desc)] env1 st1 of
                                  None \<Rightarrow> None
                                | Some (st2, tr2, env2, Some e) \<Rightarrow>
                                    map_option (\<lambda>tr'. tr1 @ tr2 @ tr')
                                      (catch_phase B F (Threw e) env2 st2)
                                | Some (st2, tr2, env2, None) \<Rightarrow>
                                    store_step B F X (tr1 @ tr2) env2 st2))
                     else store_step B F X tr1 env1 st1))))"

text \<open>
  The calls to Discord of one turn, in order: those of \<open>updateMessage\<close> while the turn is
  in flight (the calls \<open>cs\<close>), then those of the final phase.
\<close>

definition reply ::
  "builtins \<Rightarrow> formatter \<Rightarrow> collaborators \<Rightarrow> int \<Rightarrow> int \<Rightarrow> call list \<Rightarrow> display_mode \<Rightarrow>
     completion \<Rightarrow> await list \<Rightarrow> trace option" where
  "reply B F X t0 t1 cs md outcome env =
     (case stream B F cs (initial_stream t0 t1) of
        None \<Rightarrow> None
      | Some (st, ds) \<Rightarrow>
          map_option (\<lambda>tr. map (Pair InUpdate) ds @ tr) (final_phase B F X md outcome env st))"

text \<open>The calls made at one site, in order.\<close>

definition deliveries_at :: "site \<Rightarrow> trace \<Rightarrow> delivery list" where
  "deliveries_at k tr = map snd (filter (\<lambda>x. fst x = k) tr)"

text \<open>A formatter for concrete runs: \<open>cleanOutput\<close> trims strings and the marks are ASCII.\<close>

definition plain_formatter :: formatter where
  "plain_formatter =
     \<lparr>cleanOutput = (\<lambda>v. case v of JStr s \<Rightarrow> trim s | _ \<Rightarrow> []),
      thinking_mark = js ''?'', tool_mark = js ''*'', error_mark = js ''X'',
      progressFrame = (\<lambda>i. js ''[..........]''),
      error_toString = (\<lambda>r. case r of
                                Rejected ResponseTimeout \<Rightarrow> JStr (js ''Error: Response timeout'')
                              | _ \<Rightarrow> JStr (js ''Error''))\<rparr>"

text \<open>Collaborators that do not throw.\<close>

definition quiet_collaborators :: collaborators where
  "quiet_collaborators = \<lparr>question_embed = (\<lambda>pq. Inr (js ''Question'')), store_throws = None\<rparr>"



text \<open>
  The calls of a turn of 2500 ms: a text at 400 ms, a tick at 1200 ms, a text at
  1900 ms and a tick at 2400 ms.
\<close>

definition demo_calls :: "call list" where
  "demo_calls =
     [\<lparr>call_event = OnText (JStr (js ''abc'')), call_now = 400, call_now_status = 400, call_mode = Raw\<rparr>,
      \<lparr>call_event = Tick, call_now = 1200, call_now_status = 1200, call_mode = Raw\<rparr>,
      \<lparr>call_event = OnText (JStr (js ''def'')), call_now = 1900, call_now_status = 1900, call_mode = Raw\<rparr>,
      \<lparr>call_event = Tick, call_now = 2400, call_now_status = 2400, call_mode = Raw\<rparr>]"

text \<open>
  An await during which the timer ticks, 3500 ms after the reply was created, and
  collaborators whose store throws.
\<close>

definition await_with_tick :: await where
  "await_with_tick =
     \<lparr>await_during = [\<lparr>call_event = Tick, call_now = 3500, call_now_status = 3500, call_mode = Raw\<rparr>],
      await_throws = None\<rparr>"

definition failing_store :: collaborators where
  "failing_store = quiet_collaborators\<lparr>store_throws := Some (JStr (js ''SqliteError''))\<rparr>"

section \<open>Properties of splitMessage\<close>

lemma lastIndexFrom_bounds: "- 1 \<le> lastIndexFrom c s k \<and> lastIndexFrom c s k \<le> int k"
  by (induction k) auto

lemma lastIndexOf_bounds: "- 1 \<le> lastIndexOf s c pos \<and> lastIndexOf s c pos \<le> int pos"
  unfolding lastIndexOf_def by (rule lastIndexFrom_bounds)

lemma splitIndex_of_upper: "splitIndex_of m r \<le> int m"
  using lastIndexOf_bounds [of r LF m] lastIndexOf_bounds [of r SP m]
  by (auto simp: splitIndex_of_def Let_def)

lemma splitIndex_of_lower: "int m \<le> 2 * splitIndex_of m r"
  by (auto simp: splitIndex_of_def Let_def)

lemma splitIndex_of_pos: "1 \<le> m \<Longrightarrow> 1 \<le> nat (splitIndex_of m r)"
  using splitIndex_of_lower [of m r] by linarith

lemma length_trimStart: "length (trimStart s) \<le> length s"
  unfolding trimStart_def by (rule length_dropWhile_le)

lemma splitLoop_returns:
  assumes "1 \<le> m"
  shows "\<exists>res. splitLoop m r acc = Some res \<and> (acc \<noteq> [] \<or> r \<noteq> [] \<longrightarrow> res \<noteq> []) \<and>
           ((\<forall>c \<in> set acc. length c \<le> m) \<longrightarrow> (\<forall>c \<in> set res. length c \<le> m))"
proof (induction "length r" arbitrary: r acc rule: less_induct)
  case less
  show ?case
  proof (cases "r = []")
    case True
    then show ?thesis by (subst splitLoop.simps) simp
  next
    case nonempty: False
    show ?thesis
    proof (cases "length r \<le> m")
      case True
      with nonempty show ?thesis by (subst splitLoop.simps) simp
    next
      case False
      define k where "k = nat (splitIndex_of m r)"
      define r' where "r' = trimStart (drop k r)"
      have k1: "1 \<le> k" unfolding k_def using assms by (rule splitIndex_of_pos)
      have km: "k \<le> m" unfolding k_def using splitIndex_of_upper [of m r] by linarith
      have "length r' \<le> length r - k"
        unfolding r'_def using length_trimStart [of "drop k r"] by simp
      with k1 nonempty have shorter: "length r' < length r" by (cases r) auto
      from less [OF shorter, of "acc @ [take k r]"]
      obtain res where res: "splitLoop m r' (acc @ [take k r]) = Some res" "res \<noteq> []"
        "(\<forall>c \<in> set (acc @ [take k r]). length c \<le> m) \<longrightarrow> (\<forall>c \<in> set res. length c \<le> m)"
        by auto
      have step: "splitLoop m r acc = splitLoop m r' (acc @ [take k r])"
        using nonempty False by (subst splitLoop.simps) (simp add: k_def r'_def Let_def)
      from res km show ?thesis unfolding step by auto
    qed
  qed
qed

text \<open>
  C10. For every string \<open>content\<close> and every \<open>maxLength \<ge> 1\<close>, \<open>splitMessage\<close> returns
  (the loop terminates), its result is a non-empty list of chunks, every chunk has at
  most \<open>maxLength\<close> code units, and content that already fits is returned as the single
  chunk, unchanged.
\<close>

theorem splitMessage_chunks:
  assumes "1 \<le> maxLength"
  shows "\<exists>chunks. splitMessage content maxLength = Some chunks \<and> chunks \<noteq> [] \<and>
           (\<forall>c \<in> set chunks. length c \<le> maxLength) \<and>
           (length content \<le> maxLength \<longrightarrow> chunks = [content])"
proof (cases "length content \<le> maxLength")
  case True
  then show ?thesis by (simp add: splitMessage_def)
next
  case False
  then have "content \<noteq> []" by auto
  with splitLoop_returns [OF assms, of content "[]"] False
  show ?thesis by (auto simp: splitMessage_def)
qed

text \<open>
  C10 at a concrete input: \<open>"ab cd"\<close> with \<open>maxLength = 3\<close> is split at the space.
\<close>

theorem splitMessage_chunks_witness:
  "(1::nat) \<le> 3 \<and> splitMessage (js ''ab cd'') 3 = Some [js ''ab'', js ''cd''] \<and>
   (\<exists>chunks. splitMessage (js ''ab cd'') 3 = Some chunks \<and> chunks \<noteq> [] \<and>
      (\<forall>c \<in> set chunks. length c \<le> 3) \<and>
      (length (js ''ab cd'') \<le> 3 \<longrightarrow> chunks = [js ''ab cd'']))"
proof -
  have "splitMessage (js ''ab cd'') 3 = Some [js ''ab'', js ''cd'']" by code_simp
  then show ?thesis using splitMessage_chunks [of 3 "js ''ab cd''"] by simp
qed

section \<open>Single-flight turns\<close>

lemma send_busy: "isProcessing (this w) \<Longrightarrow> send m w = (Inl AlreadyProcessing, w, [])"
  by (simp add: send_def)

lemma sends_busy:
  "isProcessing (this w) \<Longrightarrow>
     sends ms w = (replicate (length ms) (Inl AlreadyProcessing), w, [])"
  by (induction ms) (simp_all add: send_def)

text \<open>
  C1. On a session with a turn in flight (\<open>isProcessing\<close> true), \<open>send\<close> fails at once
  with \<open>AlreadyProcessing\<close>, returns the world as it was (the session included) and has
  no effect: nothing is spawned, written or queued. Of \<open>N = 1 + length ms\<close> calls of
  \<open>send\<close> made on an idle session before any handler runs, the first is accepted and
  each of the other \<open>N - 1\<close> is rejected with \<open>AlreadyProcessing\<close>.
\<close>

theorem send_single_flight:
  "(isProcessing (this w) \<longrightarrow> send m w = (Inl AlreadyProcessing, w, [])) \<and>
   (\<not> isProcessing (this w) \<longrightarrow>
      fst (sends (m # ms) w) = Inr (turns w) # replicate (length ms) (Inl AlreadyProcessing))"
proof (intro conjI impI)
  assume "isProcessing (this w)"
  then show "send m w = (Inl AlreadyProcessing, w, [])" by (rule send_busy)
next
  assume idle: "\<not> isProcessing (this w)"
  obtain w' effs where s: "send m w = (Inr (turns w), w', effs)" and busy: "isProcessing (this w')"
    using idle by (simp add: send_def Let_def)
  show "fst (sends (m # ms) w) = Inr (turns w) # replicate (length ms) (Inl AlreadyProcessing)"
    by (simp add: s sends_busy [OF busy])
qed

text \<open>
  C1 on a new session: of three calls the first is accepted as turn 0 and the other two
  are rejected, and a call on the session with turn 0 in flight changes nothing.
\<close>

theorem send_single_flight_witness:
  "\<not> isProcessing (this fresh_world) \<and>
   fst (sends [JStr (js ''a''), JStr (js ''b''), JStr (js ''c'')] fresh_world) =
     [Inr 0, Inl AlreadyProcessing, Inl AlreadyProcessing] \<and>
   isProcessing (this (fst (snd (send (JStr (js ''a'')) fresh_world)))) \<and>
   send (JStr (js ''b'')) (fst (snd (send (JStr (js ''a'')) fresh_world))) =
     (Inl AlreadyProcessing, fst (snd (send (JStr (js ''a'')) fresh_world)), [])"
proof -
  have idle: "\<not> isProcessing (this fresh_world)"
    by (simp add: fresh_world_def new_ClaudeSession_def)
  have busy: "isProcessing (this (fst (snd (send (JStr (js ''a'')) fresh_world))))"
    by (simp add: send_def fresh_world_def new_ClaudeSession_def)
  from send_single_flight [of fresh_world "JStr (js ''a'')" "[JStr (js ''b''), JStr (js ''c'')]"] idle
  have "fst (sends [JStr (js ''a''), JStr (js ''b''), JStr (js ''c'')] fresh_world) =
          [Inr (turns fresh_world), Inl AlreadyProcessing, Inl AlreadyProcessing]"
    by (simp add: numeral_2_eq_2)
  moreover have "turns fresh_world = 0" by (simp add: fresh_world_def)
  moreover from send_single_flight [of "fst (snd (send (JStr (js ''a'')) fresh_world))"
      "JStr (js ''b'')" "[]"] busy
  have "send (JStr (js ''b'')) (fst (snd (send (JStr (js ''a'')) fresh_world))) =
     (Inl AlreadyProcessing, fst (snd (send (JStr (js ''a'')) fresh_world)), [])"
    by blast
  ultimately show ?thesis using idle busy by simp
qed

section \<open>What the decoder can change\<close>

lemma odf_refl: "only_decoder_fields s s"
  by (simp add: only_decoder_fields_def)

lemma odf_trans:
  "only_decoder_fields s s' \<Longrightarrow> only_decoder_fields s' s'' \<Longrightarrow> only_decoder_fields s s''"
  by (simp add: only_decoder_fields_def)

lemma odf_out: "only_decoder_fields s (s\<lparr>currentOutput := v\<rparr>)"
  by (simp add: only_decoder_fields_def)

lemma odf_sid: "only_decoder_fields s (s\<lparr>sessionId := v\<rparr>)"
  by (simp add: only_decoder_fields_def)

lemma handle_block_odf: "handle_block B b s = (s', evs, r) \<Longrightarrow> only_decoder_fields s s'"
  by (auto simp: handle_block_def Let_def odf_refl odf_out split: if_splits sum.splits)

lemma handle_blocks_odf: "handle_blocks B bs s = (s', evs, r) \<Longrightarrow> only_decoder_fields s s'"
proof (induction bs arbitrary: s s' evs r)
  case Nil
  then show ?case by (simp add: odf_refl)
next
  case (Cons b bs)
  obtain s1 e1 r1 where b: "handle_block B b s = (s1, e1, r1)" by (cases "handle_block B b s")
  show ?case
  proof (cases r1)
    case None
    obtain s2 e2 r2 where bs: "handle_blocks B bs s1 = (s2, e2, r2)" by (cases "handle_blocks B bs s1")
    with Cons.prems b None have "s' = s2" by simp
    with Cons.IH [OF bs] handle_block_odf [OF b] show ?thesis by (auto intro: odf_trans)
  next
    case (Some e)
    with Cons.prems b have "s' = s1" by simp
    with handle_block_odf [OF b] show ?thesis by simp
  qed
qed

lemma capture_session_odf: "capture_session d s = (s', evs) \<Longrightarrow> only_decoder_fields s s'"
  by (auto simp: capture_session_def odf_refl odf_sid split: if_splits)

lemma handle_assistant_odf: "handle_assistant B d s = (s', evs, r) \<Longrightarrow> only_decoder_fields s s'"
  unfolding handle_assistant_def Let_def
  by (auto split: if_splits sum.splits prod.splits option.splits
      intro: odf_refl odf_trans dest!: handle_blocks_odf capture_session_odf)

lemma handle_data_odf: "handle_data B d s = (s', evs, r) \<Longrightarrow> only_decoder_fields s s'"
  unfolding handle_data_def handle_content_block_delta_def handle_result_def Let_def
  by (auto split: if_splits prod.splits
      intro: odf_refl odf_trans odf_out odf_sid dest!: handle_assistant_odf capture_session_odf)

lemma handleJsonLine_odf: "handleJsonLine B l s = (s', evs) \<Longrightarrow> only_decoder_fields s s'"
  unfolding handleJsonLine_def
  by (auto split: sum.splits prod.splits option.splits intro: odf_refl dest!: handle_data_odf)

lemma handle_lines_odf: "handle_lines B ls s = (s', evs) \<Longrightarrow> only_decoder_fields s s'"
proof (induction ls arbitrary: s s' evs)
  case Nil
  then show ?case by (simp add: odf_refl)
next
  case (Cons l ls)
  then show ?case
    by (auto split: if_splits prod.splits intro: odf_trans dest!: handleJsonLine_odf)
qed

section \<open>Every turn is settled exactly once\<close>

lemma on_stdout_text_fields:
  assumes "on_stdout_text B text w = (w', effs)"
  shows "only_decoder_fields (this w) (this w') \<and> timers w' = timers w \<and>
         turns w' = turns w \<and> (\<forall>n. settlements n effs = [])"
proof -
  obtain s' evs where h: "handle_lines B (butlast (split LF (buffer w @ text))) (this w) = (s', evs)"
    by (cases "handle_lines B (butlast (split LF (buffer w @ text))) (this w)")
  with assms have w': "w' = w\<lparr>this := s', buffer := last (split LF (buffer w @ text))\<rparr>"
    and effs: "effs = map Emit evs"
    by (simp_all add: on_stdout_text_def Let_def)
  have "filter (is_settle n) (map Emit evs) = []" for n
    by (induction evs) simp_all
  with handle_lines_odf [OF h] w' effs show ?thesis
    by (simp add: settlements_def)
qed

lemma handle_in_flight:
  assumes "in_flight n w" and "handle B ev w = (w', effs)"
  shows "if ends_turn n ev then length (settlements n effs) = 1 \<and> settled w'
         else settlements n effs = [] \<and> in_flight n w'"
proof (cases ev)
  case (Stdout data)
  with assms(2) have "on_stdout_text B (toString data) w = (w', effs)"
    by (simp add: on_stdout_def)
  from on_stdout_text_fields [OF this] assms(1) Stdout show ?thesis
    by (simp add: in_flight_def only_decoder_fields_def)
next
  case (Stderr data)
  with assms show ?thesis by (auto simp: on_stderr_def settlements_def)
next
  case (Close code)
  with assms show ?thesis
    by (auto simp: on_close_def Let_def in_flight_def settled_def settlements_def)
next
  case (Error err)
  with assms show ?thesis
    by (auto simp: on_error_def Let_def in_flight_def settled_def settlements_def)
next
  case (Timeout t)
  with assms show ?thesis
    by (auto simp: on_timeout_def Let_def in_flight_def settled_def settlements_def)
qed

lemma handle_settled:
  assumes "settled w" and "handle B ev w = (w', effs)"
  shows "settlements n effs = [] \<and> settled w'"
proof (cases ev)
  case (Stdout data)
  with assms(2) have "on_stdout_text B (toString data) w = (w', effs)"
    by (simp add: on_stdout_def)
  from on_stdout_text_fields [OF this] assms(1) show ?thesis
    by (simp add: settled_def only_decoder_fields_def)
next
  case (Stderr data)
  with assms show ?thesis by (auto simp: on_stderr_def settlements_def)
next
  case (Close code)
  with assms show ?thesis
    by (auto simp: on_close_def Let_def settled_def settlements_def)
next
  case (Error err)
  with assms show ?thesis
    by (auto simp: on_error_def Let_def settled_def settlements_def)
next
  case (Timeout t)
  with assms show ?thesis
    by (auto simp: on_timeout_def Let_def settled_def settlements_def split: option.splits if_splits)
qed

lemma settlements_append: "settlements n (a @ b) = settlements n a @ settlements n b"
  by (simp add: settlements_def)

lemma run_settled:
  "settled w \<Longrightarrow> run B evs w = (w', effs) \<Longrightarrow> settlements n effs = [] \<and> settled w'"
proof (induction evs arbitrary: w w' effs)
  case Nil
  then show ?case by (simp add: settlements_def)
next
  case (Cons ev evs)
  obtain w1 e1 where h: "handle B ev w = (w1, e1)" by (cases "handle B ev w")
  obtain w2 e2 where r: "run B evs w1 = (w2, e2)" by (cases "run B evs w1")
  from Cons.prems(2) h r have eq: "w' = w2" "effs = e1 @ e2" by simp_all
  from handle_settled [OF Cons.prems(1) h] have "settlements n e1 = []" "settled w1" by simp_all
  with Cons.IH [OF \<open>settled w1\<close> r] eq show ?case by (simp add: settlements_append)
qed

lemma run_in_flight:
  "in_flight n w \<Longrightarrow> run B evs w = (w', effs) \<Longrightarrow>
     (if \<exists>ev \<in> set evs. ends_turn n ev then length (settlements n effs) = 1 \<and> settled w'
      else settlements n effs = [] \<and> in_flight n w')"
proof (induction evs arbitrary: w w' effs)
  case Nil
  then show ?case by (simp add: settlements_def)
next
  case (Cons ev evs)
  obtain w1 e1 where h: "handle B ev w = (w1, e1)" by (cases "handle B ev w")
  obtain w2 e2 where r: "run B evs w1 = (w2, e2)" by (cases "run B evs w1")
  from Cons.prems(2) h r have eq: "w' = w2" "effs = e1 @ e2" by simp_all
  show ?case
  proof (cases "ends_turn n ev")
    case True
    with handle_in_flight [OF Cons.prems(1) h]
    have "length (settlements n e1) = 1" "settled w1" by simp_all
    with run_settled [OF \<open>settled w1\<close> r, of n] eq True show ?thesis
      by (simp add: settlements_append)
  next
    case False
    with handle_in_flight [OF Cons.prems(1) h]
    have "settlements n e1 = []" "in_flight n w1" by simp_all
    with Cons.IH [OF \<open>in_flight n w1\<close> r] eq False show ?thesis
      by (simp add: settlements_append)
  qed
qed

text \<open>
  A new session has no timer, and \<open>send\<close>, every handler and \<open>kill\<close> keep the timers
  to the one the session names: whenever a session is idle, no timer of an earlier
  turn is left to fire.
\<close>

lemma removeAll_only: "set ts \<subseteq> {x} \<Longrightarrow> removeAll x ts = []"
  by (induction ts) auto

lemma timers_owned_new: "timers_owned \<lparr>this = new_ClaudeSession cwd opts, buffer = [], timers = [], turns = 0\<rparr>"
  by (simp add: timers_owned_def)

lemma timers_owned_send: "timers_owned w \<Longrightarrow> timers_owned (fst (snd (send m w)))"
  by (auto simp: timers_owned_def send_def Let_def)

lemma timers_owned_handle:
  assumes "timers_owned w"
  shows "timers_owned (fst (handle B ev w))"
proof (cases ev)
  case (Stdout data)
  obtain w' effs where h: "on_stdout_text B (toString data) w = (w', effs)"
    by (cases "on_stdout_text B (toString data) w")
  from on_stdout_text_fields [OF h] assms Stdout h show ?thesis
    by (simp add: timers_owned_def only_decoder_fields_def on_stdout_def)
next
  case (Stderr data)
  with assms show ?thesis by (simp add: on_stderr_def)
next
  case (Close code)
  with assms show ?thesis
    by (auto simp: timers_owned_def on_close_def clearTimeout_def Let_def removeAll_only
        split: option.splits)
next
  case (Error err)
  with assms show ?thesis
    by (auto simp: timers_owned_def on_error_def clearTimeout_def Let_def removeAll_only
        split: option.splits)
next
  case (Timeout t)
  with assms show ?thesis
    by (auto simp: timers_owned_def on_timeout_def Let_def removeAll_only split: option.splits)
qed

lemma timers_owned_kill: "timers_owned w \<Longrightarrow> timers_owned (fst (kill w))"
  by (auto simp: timers_owned_def kill_def clearTimeout_def Let_def removeAll_only
      split: option.splits)

lemma timers_owned_idle: "timers_owned w \<Longrightarrow> \<not> isProcessing (this w) \<Longrightarrow> timers w = []"
  by (simp add: timers_owned_def)

lemma send_in_flight:
  "\<not> isProcessing (this w) \<Longrightarrow> timers w = [] \<Longrightarrow>
     \<exists>w1 effs. send m w = (Inr (turns w), w1, effs) \<and> in_flight (turns w) w1"
  by (simp add: send_def Let_def in_flight_def)

text \<open>
  C5. A turn created by \<open>send\<close> on an idle session is settled exactly once, whatever
  events of its child follow and in whatever order (stdout and stderr data, close,
  error, expiry of the turn's timer): its promise is never settled twice, it is settled
  once as soon as a close, an error or the expiry has happened, and as long as none has
  happened the timer is still armed with the child alive and \<open>reject\<close> pending, so that
  the expiry settles it.
\<close>

theorem turn_settled_once:
  assumes "\<not> isProcessing (this w)" and "timers w = []"
  shows "\<exists>w1 e1 w2 effs.
           send m w = (Inr (turns w), w1, e1) \<and> run B evs w1 = (w2, effs) \<and>
           length (settlements (turns w) effs) \<le> 1 \<and>
           (length (settlements (turns w) effs) = 1 \<longleftrightarrow> (\<exists>ev \<in> set evs. ends_turn (turns w) ev)) \<and>
           ((\<forall>ev \<in> set evs. \<not> ends_turn (turns w) ev) \<longrightarrow>
              turns w \<in> set (timers w2) \<and> process (this w2) = Some (turns w) \<and>
              pendingReject (this w2) = Some (turns w))"
proof -
  from send_in_flight [OF assms] obtain w1 e1
    where s: "send m w = (Inr (turns w), w1, e1)" and inf: "in_flight (turns w) w1" by blast
  obtain w2 effs where r: "run B evs w1 = (w2, effs)" by (cases "run B evs w1")
  from run_in_flight [OF inf r] s r show ?thesis
    by (auto simp: in_flight_def split: if_splits)
qed

section \<open>A turn on a new session\<close>

lemma fresh_session:
  "this fresh_world =
     \<lparr>sessionId = JNull, workingDir = JStr (js ''/work''), timeout = 300000,
      process = None, isProcessing = False, pendingResolve = None, pendingReject = None,
      currentOutput = JStr [], timeoutId = None\<rparr>"
  by (simp add: fresh_world_def new_ClaudeSession_def no_options_def js_or_def)

lemma fresh_send:
  "send m fresh_world =
     (Inr 0, fresh_world\<lparr>this := (this fresh_world)\<lparr>isProcessing := True, pendingResolve := Some 0,
                                   pendingReject := Some 0, currentOutput := JStr [],
                                   process := Some 0, timeoutId := Some 0\<rparr>,
                  buffer := [], timers := [0], turns := Suc 0\<rparr>, [Spawn 0 JNull, StdinWrite 0 m])"
  by (simp add: send_def fresh_world_def new_ClaudeSession_def no_options_def js_or_def)

text \<open>
  C5 at a concrete run: the timer expires, then the child closes, then it reports an
  error. The expiry rejects the promise and the two later events settle nothing.
\<close>

theorem turn_settled_once_witness:
  "\<not> isProcessing (this fresh_world) \<and> timers fresh_world = [] \<and>
   settlements 0 (snd (run (parse_table []) [Timeout 0, Close None, Error JNull]
      (fst (snd (send (JStr (js ''hello'')) fresh_world))))) = [Reject 0 ResponseTimeout] \<and>
   (\<exists>w1 e1 w2 effs.
      send (JStr (js ''hello'')) fresh_world = (Inr (turns fresh_world), w1, e1) \<and>
      run (parse_table []) [Timeout 0, Close None, Error JNull] w1 = (w2, effs) \<and>
      length (settlements (turns fresh_world) effs) \<le> 1 \<and>
      (length (settlements (turns fresh_world) effs) = 1 \<longleftrightarrow>
         (\<exists>ev \<in> set [Timeout 0, Close None, Error JNull]. ends_turn (turns fresh_world) ev)) \<and>
      ((\<forall>ev \<in> set [Timeout 0, Close None, Error JNull]. \<not> ends_turn (turns fresh_world) ev) \<longrightarrow>
         turns fresh_world \<in> set (timers w2) \<and> process (this w2) = Some (turns fresh_world) \<and>
         pendingReject (this w2) = Some (turns fresh_world)))"
proof -
  have idle: "\<not> isProcessing (this fresh_world)" "timers fresh_world = []"
    by (simp_all add: fresh_world_def new_ClaudeSession_def)
  have ev: "settlements 0 (snd (run (parse_table []) [Timeout 0, Close None, Error JNull]
      (fst (snd (send (JStr (js ''hello'')) fresh_world))))) = [Reject 0 ResponseTimeout]"
    by (simp add: fresh_send on_timeout_def on_close_def on_error_def clearTimeout_def
        settlements_def Let_def)
  from turn_settled_once [OF idle, of "JStr (js ''hello'')" "parse_table []"
      "[Timeout 0, Close None, Error JNull]"] idle ev
  show ?thesis by blast
qed

text \<open>
  C6. The claim is that a child that exits with a non-zero code while a turn is pending
  makes the turn fail. The \<open>close\<close> handler does not read its \<open>code\<close> parameter: on a
  session with a turn in flight it calls \<open>resolve\<close> with the output accumulated so far
  (here none) whatever the exit code is, so the turn succeeds.
\<close>

theorem close_nonzero_resolves:
  "\<forall>code. snd (on_close code (fst (snd (send (JStr (js ''hello'')) fresh_world)))) =
     [Resolve 0 (JStr []) JNull]"
  by (simp add: fresh_send on_close_def clearTimeout_def Let_def fresh_session)

section \<open>Malformed lines\<close>

lemma handle_lines_append:
  "handle_lines B (a @ b) s =
     (case handle_lines B a s of (s1, e1) \<Rightarrow>
        (case handle_lines B b s1 of (s2, e2) \<Rightarrow> (s2, e1 @ e2)))"
  by (induction a arbitrary: s) (auto split: prod.splits)

lemma handleJsonLine_malformed:
  "JSON_parse B line = Inl e \<Longrightarrow> handleJsonLine B line s = (s, [ParseError_ev line e])"
  by (simp add: handleJsonLine_def)

text \<open>
  C7. A line that \<open>JSON.parse\<close> rejects makes \<open>handleJsonLine\<close> emit one
  \<open>parse_error\<close> event that carries the line, and nothing else: it returns (nothing is
  raised), and the session is returned as it was, the pending turn included. In the
  stdout handler, where the line decoded is the trimmed text \<open>line\<close> of a raw line
  that is not blank, the lines before and after it leave the same session and emit the
  same events as they do when the malformed line is not there; the only difference is
  the one \<open>parse_error\<close> event between them.
\<close>

theorem parse_error_not_fatal:
  assumes "JSON_parse B line = Inl e"
  shows "handleJsonLine B line s = (s, [ParseError_ev line e]) \<and>
         (trim raw = line \<and> line \<noteq> [] \<longrightarrow>
            fst (handle_lines B (pre @ raw # post) s) = fst (handle_lines B (pre @ post) s) \<and>
            snd (handle_lines B (pre @ raw # post) s) =
              snd (handle_lines B pre s) @ ParseError_ev line e #
              snd (handle_lines B post (fst (handle_lines B pre s))) \<and>
            snd (handle_lines B (pre @ post) s) =
              snd (handle_lines B pre s) @
              snd (handle_lines B post (fst (handle_lines B pre s))))"
proof (intro conjI impI)
  show one: "handleJsonLine B line s = (s, [ParseError_ev line e])" for s
    using assms by (rule handleJsonLine_malformed)
  assume raw: "trim raw = line \<and> line \<noteq> []"
  obtain s1 e1 where pre: "handle_lines B pre s = (s1, e1)" by (cases "handle_lines B pre s")
  obtain s2 e2 where post: "handle_lines B post s1 = (s2, e2)" by (cases "handle_lines B post s1")
  have mid: "handle_lines B (raw # post) s1 = (s2, ParseError_ev line e # e2)"
    using raw one [of s1] post by simp
  have with_line: "handle_lines B (pre @ raw # post) s = (s2, e1 @ ParseError_ev line e # e2)"
    by (simp only: handle_lines_append [of B pre "raw # post" s] pre mid prod.case)
  have without: "handle_lines B (pre @ post) s = (s2, e1 @ e2)"
    by (simp only: handle_lines_append [of B pre post s] pre post prod.case)
  show "fst (handle_lines B (pre @ raw # post) s) = fst (handle_lines B (pre @ post) s)"
    by (simp add: with_line without)
  show "snd (handle_lines B (pre @ raw # post) s) =
          snd (handle_lines B pre s) @ ParseError_ev line e #
          snd (handle_lines B post (fst (handle_lines B pre s)))"
    by (simp add: with_line pre post)
  show "snd (handle_lines B (pre @ post) s) =
          snd (handle_lines B pre s) @ snd (handle_lines B post (fst (handle_lines B pre s)))"
    by (simp add: without pre post)
qed

text \<open>The definitions the simplifier unfolds to run the decoder on the concrete records.\<close>

lemmas fixture_defs = engine_def parse_table_def line_not_json_def line_init_A_def
  line_assistant_B_def line_delta_def line_result_B_def line_result_empty_def
  record_init_A_def record_assistant_B_def record_delta_def record_result_B_def
  record_result_empty_def js_def

lemmas decoder_defs = trim_def is_ws_def handleJsonLine_def handle_data_def handle_assistant_def
  handle_block_def handle_content_block_delta_def handle_content_block_start_def
  handle_result_def capture_session_def iterate_def nullish_def js_plus_def js_or_def Let_def

text \<open>
  C7 at a concrete stream: the line \<open>{not json\<close> between an assistant record and a
  text delta.
\<close>

theorem parse_error_not_fatal_witness:
  "JSON_parse engine line_not_json = Inl (SyntaxError (js ''Unexpected token'')) \<and>
   trim line_not_json = line_not_json \<and> line_not_json \<noteq> [] \<and>
   handleJsonLine engine line_not_json (this fresh_world) =
     (this fresh_world, [ParseError_ev line_not_json (SyntaxError (js ''Unexpected token''))]) \<and>
   snd (handle_lines engine ([line_assistant_B] @ line_not_json # [line_delta]) (this fresh_world)) =
     [Text_ev (JStr (js ''abc'')), Session_ev (JStr (js ''B'')),
      ParseError_ev line_not_json (SyntaxError (js ''Unexpected token'')),
      Text_ev (JStr (js ''def''))] \<and>
   snd (handle_lines engine ([line_assistant_B] @ [line_delta]) (this fresh_world)) =
     [Text_ev (JStr (js ''abc'')), Session_ev (JStr (js ''B'')), Text_ev (JStr (js ''def''))]"
proof -
  have bad: "JSON_parse engine line_not_json = Inl (SyntaxError (js ''Unexpected token''))"
    by (simp add: fixture_defs)
  have raw: "trim line_not_json = line_not_json \<and> line_not_json \<noteq> []"
    by (simp add: line_not_json_def trim_def js_def is_ws_def)
  have pre: "handle_lines engine [line_assistant_B] (this fresh_world) =
      ((this fresh_world)\<lparr>sessionId := JStr (js ''B''), currentOutput := JStr (js ''abc'')\<rparr>,
       [Text_ev (JStr (js ''abc'')), Session_ev (JStr (js ''B''))])"
    by (simp add: fixture_defs decoder_defs fresh_session)
  have post: "snd (handle_lines engine [line_delta]
      ((this fresh_world)\<lparr>sessionId := JStr (js ''B''), currentOutput := JStr (js ''abc'')\<rparr>)) =
      [Text_ev (JStr (js ''def''))]"
    by (simp add: fixture_defs decoder_defs fresh_session)
  from parse_error_not_fatal [OF bad, of "this fresh_world" line_not_json "[line_assistant_B]"
      "[line_delta]"] raw bad
  show ?thesis by (simp add: pre post del: handle_lines.simps)
qed

section \<open>What one line does to the output and to the identity\<close>

lemma text_deltas_append: "text_deltas (a @ b) = text_deltas a @ text_deltas b"
  by (induction a rule: text_deltas.induct) simp_all

lemma handle_block_sid: "handle_block B b s = (s', evs, r) \<Longrightarrow> sessionId s' = sessionId s"
  by (auto simp: handle_block_def Let_def split: if_splits sum.splits)

lemma handle_block_out:
  "handle_block B b s = (s', evs, r) \<Longrightarrow>
     currentOutput s' = foldl (js_plus B) (currentOutput s) (text_deltas evs)"
  by (auto simp: handle_block_def Let_def split: if_splits sum.splits)

lemma handle_blocks_sid_out:
  "handle_blocks B bs s = (s', evs, r) \<Longrightarrow>
     sessionId s' = sessionId s \<and>
     currentOutput s' = foldl (js_plus B) (currentOutput s) (text_deltas evs)"
proof (induction bs arbitrary: s s' evs r)
  case Nil
  then show ?case by simp
next
  case (Cons b bs)
  obtain s1 e1 r1 where b: "handle_block B b s = (s1, e1, r1)" by (cases "handle_block B b s")
  note b1 = handle_block_sid [OF b] handle_block_out [OF b]
  show ?case
  proof (cases r1)
    case None
    obtain s2 e2 r2 where bs: "handle_blocks B bs s1 = (s2, e2, r2)" by (cases "handle_blocks B bs s1")
    with Cons.prems b None have "s' = s2" "evs = e1 @ e2" by simp_all
    with Cons.IH [OF bs] b1 show ?thesis by (simp add: text_deltas_append)
  next
    case (Some e)
    with Cons.prems b have "s' = s1" "evs = e1" by simp_all
    with b1 show ?thesis by simp
  qed
qed

lemma capture_session_out:
  "capture_session d s = (s', evs) \<Longrightarrow> currentOutput s' = currentOutput s \<and> text_deltas evs = []"
  by (auto simp: capture_session_def split: if_splits)

lemma capture_session_latched:
  "truthy (sessionId s) \<Longrightarrow> capture_session d s = (s, [])"
  by (simp add: capture_session_def)

lemma handle_assistant_out:
  assumes "handle_assistant B d s = (s', evs, r)"
  shows "currentOutput s' = foldl (js_plus B) (currentOutput s) (text_deltas evs)"
proof -
  define r0 where "r0 = (if truthy (field d (js ''message'')) \<and>
        truthy (field (field d (js ''message'')) (js ''content''))
      then (case iterate (field (field d (js ''message'')) (js ''content'')) of
              Inl e \<Rightarrow> (s, [], Some e) | Inr blocks \<Rightarrow> handle_blocks B blocks s)
      else (s, [], None))"
  obtain s1 e1 r1 where r0: "r0 = (s1, e1, r1)" by (cases r0)
  have out1: "currentOutput s1 = foldl (js_plus B) (currentOutput s) (text_deltas e1)"
    using r0 unfolding r0_def
    by (auto split: if_splits sum.splits dest: handle_blocks_sid_out)
  show ?thesis
  proof (cases r1)
    case None
    obtain s2 e2 where c: "capture_session d s1 = (s2, e2)" by (cases "capture_session d s1")
    from assms r0 None c have "s' = s2" "evs = e1 @ e2"
      by (simp_all add: handle_assistant_def Let_def r0_def [symmetric])
    with out1 capture_session_out [OF c] show ?thesis by (simp add: text_deltas_append)
  next
    case (Some e)
    with assms r0 have "s' = s1" "evs = e1"
      by (simp_all add: handle_assistant_def Let_def r0_def [symmetric])
    with out1 show ?thesis by simp
  qed
qed

lemma handle_assistant_sid:
  assumes "handle_assistant B d s = (s', evs, r)" and "truthy (sessionId s)"
  shows "sessionId s' = sessionId s"
proof -
  define r0 where "r0 = (if truthy (field d (js ''message'')) \<and>
        truthy (field (field d (js ''message'')) (js ''content''))
      then (case iterate (field (field d (js ''message'')) (js ''content'')) of
              Inl e \<Rightarrow> (s, [], Some e) | Inr blocks \<Rightarrow> handle_blocks B blocks s)
      else (s, [], None))"
  obtain s1 e1 r1 where r0: "r0 = (s1, e1, r1)" by (cases r0)
  have sid1: "sessionId s1 = sessionId s"
    using r0 unfolding r0_def
    by (auto split: if_splits sum.splits dest: handle_blocks_sid_out)
  show ?thesis
  proof (cases r1)
    case None
    from sid1 assms(2) have "capture_session d s1 = (s1, [])"
      by (simp add: capture_session_latched)
    with assms(1) r0 None have "s' = s1"
      by (simp add: handle_assistant_def Let_def r0_def [symmetric])
    with sid1 show ?thesis by simp
  next
    case (Some e)
    with assms r0 have "s' = s1"
      by (simp_all add: handle_assistant_def Let_def r0_def [symmetric])
    with sid1 show ?thesis by simp
  qed
qed

lemma handle_data_not_result:
  assumes "handle_data B d s = (s', evs, r)" and "field d (js ''type'') \<noteq> JStr (js ''result'')"
  shows "currentOutput s' = foldl (js_plus B) (currentOutput s) (text_deltas evs) \<and>
         (truthy (sessionId s) \<longrightarrow> sessionId s' = sessionId s)"
proof -
  consider (null) "nullish d"
    | (system) "\<not> nullish d" "field d (js ''type'') = JStr (js ''system'')"
    | (assistant) "\<not> nullish d" "field d (js ''type'') = JStr (js ''assistant'')"
    | (start) "\<not> nullish d" "field d (js ''type'') = JStr (js ''content_block_start'')"
    | (delta) "\<not> nullish d" "field d (js ''type'') = JStr (js ''content_block_delta'')"
    | (other) "\<not> nullish d" "field d (js ''type'') \<noteq> JStr (js ''system'')"
        "field d (js ''type'') \<noteq> JStr (js ''assistant'')"
        "field d (js ''type'') \<noteq> JStr (js ''content_block_start'')"
        "field d (js ''type'') \<noteq> JStr (js ''content_block_delta'')"
    by blast
  then show ?thesis
  proof cases
    case null
    with assms show ?thesis by (simp add: handle_data_def)
  next
    case system
    with assms show ?thesis
      by (auto simp: handle_data_def js_def capture_session_def split: if_splits)
  next
    case assistant
    with assms have "handle_assistant B d s = (s', evs, r)"
      by (simp add: handle_data_def js_def)
    from handle_assistant_out [OF this] handle_assistant_sid [OF this] show ?thesis by simp
  next
    case start
    with assms show ?thesis
      by (auto simp: handle_data_def js_def handle_content_block_start_def Let_def split: if_splits)
  next
    case delta
    with assms show ?thesis
      by (auto simp: handle_data_def js_def handle_content_block_delta_def Let_def split: if_splits)
  next
    case other
    with assms show ?thesis by (auto simp: handle_data_def)
  qed
qed

lemma handle_data_result:
  assumes "field d (js ''type'') = JStr (js ''result'')"
  shows "handle_data B d s =
           (s\<lparr>currentOutput := (if truthy (field d (js ''result'')) then field d (js ''result'')
                                 else currentOutput s),
              sessionId := (if truthy (field d (js ''session_id'')) then field d (js ''session_id'')
                            else sessionId s)\<rparr>,
            [Result_ev d], None)"
proof -
  from assms have "\<not> nullish d" by (auto simp: nullish_def)
  with assms show ?thesis
    by (simp add: handle_data_def handle_result_def Let_def js_def)
qed


lemma handleJsonLine_not_result:
  assumes "handleJsonLine B line s = (s', evs)" and "\<not> is_result_line B line"
  shows "currentOutput s' = foldl (js_plus B) (currentOutput s) (text_deltas evs) \<and>
         (truthy (sessionId s) \<longrightarrow> sessionId s' = sessionId s)"
proof (cases "JSON_parse B line")
  case (Inl e)
  with assms show ?thesis by (auto simp: handleJsonLine_def)
next
  case (Inr d)
  with assms(2) have ty: "field d (js ''type'') \<noteq> JStr (js ''result'')"
    by (simp add: is_result_line_def)
  obtain s1 e1 r1 where h: "handle_data B d s = (s1, e1, r1)" by (cases "handle_data B d s")
  from assms(1) Inr h have "s' = s1" "text_deltas evs = text_deltas e1"
    by (auto simp: handleJsonLine_def text_deltas_append split: option.splits)
  with handle_data_not_result [OF h ty] show ?thesis by simp
qed

lemma handleJsonLine_result:
  assumes "is_result_line B line"
  shows "\<exists>evs. handleJsonLine B line s =
           (s\<lparr>currentOutput := (if truthy (result_field B line) then result_field B line
                                 else currentOutput s),
              sessionId := (if truthy (session_field B line) then session_field B line
                            else sessionId s)\<rparr>, evs) \<and> text_deltas evs = []"
proof (cases "JSON_parse B line")
  case (Inl e)
  with assms show ?thesis by (simp add: is_result_line_def)
next
  case (Inr d)
  with assms have ty: "field d (js ''type'') = JStr (js ''result'')"
    by (simp add: is_result_line_def)
  from Inr handle_data_result [OF ty, of B s] show ?thesis
    by (simp add: handleJsonLine_def result_field_def session_field_def)
qed

text \<open>
  C4, as the code has it. Once the session stores an identity (a truthy \<open>sessionId\<close>),
  decoding a line that is not a result record (an init record, an assistant record,
  anything else) leaves the stored identity as it is, whatever \<open>session_id\<close> the line
  carries. A result record is the exception: when it carries a truthy \<open>session_id\<close>,
  that value replaces the stored identity.
\<close>

theorem identity_latched_except_result:
  assumes "truthy (sessionId s)"
  shows "(\<not> is_result_line B line \<longrightarrow> sessionId (fst (handleJsonLine B line s)) = sessionId s) \<and>
         (is_result_line B line \<longrightarrow>
            sessionId (fst (handleJsonLine B line s)) =
              (if truthy (session_field B line) then session_field B line else sessionId s))"
proof (intro conjI impI)
  assume nr: "\<not> is_result_line B line"
  obtain s' evs where h: "handleJsonLine B line s = (s', evs)" by (cases "handleJsonLine B line s")
  from handleJsonLine_not_result [OF h nr] assms h
  show "sessionId (fst (handleJsonLine B line s)) = sessionId s" by simp
next
  assume "is_result_line B line"
  from handleJsonLine_result [OF this, of s]
  show "sessionId (fst (handleJsonLine B line s)) =
          (if truthy (session_field B line) then session_field B line else sessionId s)"
    by auto
qed

lemma after_init:
  "handle_lines engine [line_init_A] (this fresh_world) =
     ((this fresh_world)\<lparr>sessionId := JStr (js ''A'')\<rparr>,
      [Session_ev (JStr (js ''A'')), Init_ev record_init_A])"
  by (simp add: fixture_defs decoder_defs fresh_session)

text \<open>
  C4 as stated fails on a result record. After the init record has stored the identity
  \<open>A\<close>, a result record that carries the identity \<open>B\<close> changes what the session
  stores.
\<close>

theorem result_overwrites_identity:
  "sessionId (fst (handle_lines engine [line_init_A] (this fresh_world))) = JStr (js ''A'') \<and>
   session_field engine line_result_B = JStr (js ''B'') \<and>
   sessionId (fst (handle_lines engine [line_init_A, line_result_B] (this fresh_world))) \<noteq>
     sessionId (fst (handle_lines engine [line_init_A] (this fresh_world)))"
  by (simp add: fixture_defs decoder_defs fresh_session session_field_def)

text \<open>
  C4 as amended, on a session that stores \<open>A\<close>: an assistant record carrying \<open>B\<close>
  leaves \<open>A\<close>, a result record carrying \<open>B\<close> stores \<open>B\<close>.
\<close>

theorem identity_latched_except_result_witness:
  "truthy (sessionId ((this fresh_world)\<lparr>sessionId := JStr (js ''A'')\<rparr>)) \<and>
   \<not> is_result_line engine line_assistant_B \<and>
   session_field engine line_assistant_B = JStr (js ''B'') \<and>
   sessionId (fst (handleJsonLine engine line_assistant_B
      ((this fresh_world)\<lparr>sessionId := JStr (js ''A'')\<rparr>))) = JStr (js ''A'') \<and>
   is_result_line engine line_result_B \<and>
   sessionId (fst (handleJsonLine engine line_result_B
      ((this fresh_world)\<lparr>sessionId := JStr (js ''A'')\<rparr>))) = JStr (js ''B'')"
proof -
  let ?s = "(this fresh_world)\<lparr>sessionId := JStr (js ''A'')\<rparr>"
  have t: "truthy (sessionId ?s)" by (simp add: js_def)
  have a: "\<not> is_result_line engine line_assistant_B"
    by (simp add: fixture_defs is_result_line_def)
  have b: "is_result_line engine line_result_B"
    by (simp add: fixture_defs is_result_line_def)
  have sa: "session_field engine line_assistant_B = JStr (js ''B'')"
    by (simp add: fixture_defs session_field_def)
  have sb: "session_field engine line_result_B = JStr (js ''B'')"
    by (simp add: fixture_defs session_field_def)
  have tb: "truthy (JStr (js ''B''))" by (simp add: js_def)
  from identity_latched_except_result [OF t, of engine line_assistant_B] a
  have 1: "sessionId (fst (handleJsonLine engine line_assistant_B ?s)) = JStr (js ''A'')"
    by simp
  from identity_latched_except_result [OF t, of engine line_result_B] b sb tb
  have 2: "sessionId (fst (handleJsonLine engine line_result_B ?s)) = JStr (js ''B'')"
    by simp
  from t a b sa 1 2 show ?thesis by blast
qed

section \<open>Chunks of stdout\<close>

lemma split_nonempty: "split c s \<noteq> []"
  by (induction s) (auto split: list.splits)

lemma split_append:
  "split c (a @ b) = butlast (split c a) @ split c (last (split c a) @ b)"
proof (induction a)
  case Nil
  then show ?case by simp
next
  case (Cons x xs)
  obtain l0 ls0 where xs: "split c xs = l0 # ls0"
    using split_nonempty [of c xs] by (cases "split c xs") auto
  show ?case
  proof (cases "x = c")
    case True
    with Cons xs show ?thesis by simp
  next
    case False
    show ?thesis
    proof (cases ls0)
      case Nil
      with Cons xs False show ?thesis by simp
    next
      case (Cons l1 ls1)
      with Cons.IH xs False show ?thesis by simp
    qed
  qed
qed

lemma butlast_last_split_append:
  "butlast (split c (a @ b)) = butlast (split c a) @ butlast (split c (last (split c a) @ b))"
  "last (split c (a @ b)) = last (split c (last (split c a) @ b))"
  by (simp_all add: split_append [of c a b] butlast_append split_nonempty)

lemma on_stdout_text_append:
  "on_stdout_text B (a @ b) w =
     (case on_stdout_text B a w of (w1, e1) \<Rightarrow>
        (case on_stdout_text B b w1 of (w2, e2) \<Rightarrow> (w2, e1 @ e2)))"
proof -
  let ?la = "split LF (buffer w @ a)"
  obtain s1 e1 where h1: "handle_lines B (butlast ?la) (this w) = (s1, e1)"
    by (cases "handle_lines B (butlast ?la) (this w)")
  obtain s2 e2 where h2: "handle_lines B (butlast (split LF (last ?la @ b))) s1 = (s2, e2)"
    by (cases "handle_lines B (butlast (split LF (last ?la @ b))) s1")
  have first: "on_stdout_text B a w = (w\<lparr>this := s1, buffer := last ?la\<rparr>, map Emit e1)"
    by (simp add: on_stdout_text_def Let_def h1)
  have second: "on_stdout_text B b (w\<lparr>this := s1, buffer := last ?la\<rparr>) =
      (w\<lparr>this := s2, buffer := last (split LF (last ?la @ b))\<rparr>, map Emit e2)"
    by (simp add: on_stdout_text_def Let_def h2)
  have whole: "handle_lines B (butlast (split LF (buffer w @ a @ b))) (this w) = (s2, e1 @ e2)"
    using butlast_last_split_append(1) [of LF "buffer w @ a" b]
    by (simp add: handle_lines_append h1 h2)
  have "on_stdout_text B (a @ b) w =
      (w\<lparr>this := s2, buffer := last (split LF (last ?la @ b))\<rparr>, map Emit (e1 @ e2))"
    using butlast_last_split_append(2) [of LF "buffer w @ a" b]
    by (simp add: on_stdout_text_def Let_def whole)
  then show ?thesis by (simp add: first second)
qed

lemma split_no_sep: "c \<notin> set s \<Longrightarrow> split c s = [s]"
  by (induction s) auto

lemma last_split_no_sep: "c \<notin> set (last (split c s))"
proof (induction s)
  case Nil
  then show ?case by simp
next
  case (Cons x xs)
  obtain l0 ls0 where xs: "split c xs = l0 # ls0"
    using split_nonempty [of c xs] by (cases "split c xs") auto
  with Cons show ?case by (cases ls0) auto
qed

lemma on_stdout_text_buffer:
  "on_stdout_text B text w = (w', effs) \<Longrightarrow> LF \<notin> set (buffer w')"
  by (auto simp: on_stdout_text_def Let_def last_split_no_sep split: prod.splits)

lemma on_stdout_text_empty: "LF \<notin> set (buffer w) \<Longrightarrow> on_stdout_text B [] w = (w, [])"
  by (simp add: on_stdout_text_def split_no_sep)

lemma run_stdout:
  "LF \<notin> set (buffer w) \<Longrightarrow>
     run B (map Stdout chunks) w = on_stdout_text B (concat (map toString chunks)) w"
proof (induction chunks arbitrary: w)
  case Nil
  then show ?case by (simp add: on_stdout_text_empty)
next
  case (Cons c cs)
  obtain w1 e1 where h: "on_stdout_text B (toString c) w = (w1, e1)"
    by (cases "on_stdout_text B (toString c) w")
  from Cons.IH [OF on_stdout_text_buffer [OF h]] h show ?case
    by (simp add: on_stdout_def on_stdout_text_append [of B "toString c"])
qed

text \<open>
  Where the decoding of the bytes is the decoding of the two chunks one after the other
  (every split between two characters), feeding the two chunks does what feeding the
  unsplit data does: the same events, the same session, the same partial line kept.
\<close>

lemma stdout_split_invariant:
  assumes "toString (a @ b) = toString a @ toString b"
  shows "run B [Stdout (a @ b)] w = run B [Stdout a, Stdout b] w"
  using assms by (simp add: on_stdout_def on_stdout_text_append split: prod.splits)

text \<open>
  That is so whenever the first chunk is ASCII, and so at every split position of a
  stream that is ASCII.
\<close>

lemma utf8_decode_ascii:
  "\<forall>x \<in> set xs. x \<le> 0x7F \<Longrightarrow>
     utf8_decode utf8_init (xs @ ys) = xs @ utf8_decode utf8_init ys"
  by (induction xs) (simp_all add: utf8_lead_def utf8_init_def)

lemma toString_ascii_append:
  assumes "\<forall>b \<in> set a. b \<le> 0x7F"
  shows "toString (a @ b) = toString a @ toString b"
proof -
  from assms have small: "\<forall>x \<in> set (map unat a). x \<le> 0x7F"
    by (auto simp: word_le_nat_alt)
  have "utf8_decode utf8_init [] = []" by (simp add: utf8_init_def)
  with utf8_decode_ascii [OF small, of "[]"]
  have whole: "utf8_decode utf8_init (map unat a) = map unat a" by simp
  from utf8_decode_ascii [OF small, of "map unat b"] whole show ?thesis
    by (simp add: toString_def)
qed

lemma ascii_split_invariant:
  "\<forall>b \<in> set a. b \<le> 0x7F \<Longrightarrow> run B [Stdout (a @ b)] w = run B [Stdout a, Stdout b] w"
  by (rule stdout_split_invariant) (rule toString_ascii_append)

section \<open>A chunk boundary inside a character\<close>

lemmas utf8_defs = toString_def utf8_lead_def utf8_init_def utf16_encode_def ascii_def
  chunk_a_def chunk_b_def

lemma parse_e: "JSON_parse engine_utf8 (text_line [0xE9]) = Inr (text_record [0xE9])"
  by (simp add: engine_utf8_def parse_table_def text_line_def js_def)

lemma parse_fffd:
  "JSON_parse engine_utf8 (text_line [0xFFFD, 0xFFFD]) = Inr (text_record [0xFFFD, 0xFFFD])"
  by (simp add: engine_utf8_def parse_table_def text_line_def js_def)

lemma trim_text_line: "trim (text_line t) = text_line t"
  by (simp add: trim_def text_line_def js_def is_ws_def)

lemma text_line_nonempty: "text_line t \<noteq> []"
  by (simp add: text_line_def js_def)

lemma split_terminated: "c \<notin> set s \<Longrightarrow> split c (s @ [c]) = [s, []]"
  by (induction s) auto

lemma split_text_line:
  "LF \<notin> set t \<Longrightarrow> split LF (text_line t @ [LF]) = [text_line t, []]"
  by (rule split_terminated) (simp add: text_line_def js_def LF_def)

lemma decode_text_record:
  "handle_data B (text_record t) s =
     (s\<lparr>currentOutput := js_plus B (currentOutput s) (JStr t)\<rparr>, [Text_ev (JStr t)], None)"
  by (simp add: text_record_def decoder_defs js_def)

text \<open>
  C2. The claim is that a stream fed in two chunks is decoded to the same events as the
  unsplit stream, wherever it is split. The stdout handler keeps the partial line, but
  it converts each chunk to a string on its own: a chunk that ends inside a multi-byte
  character becomes a string that ends with U+FFFD, and the rest of the character
  becomes another U+FFFD. Fed whole, the record below yields the text \<open>U+00E9\<close>; fed
  in the two chunks, it yields the text \<open>U+FFFD U+FFFD\<close>.
\<close>

theorem split_inside_character_changes_events:
  "snd (run engine_utf8 [Stdout (chunk_a @ chunk_b)] (fst (snd (send (JStr (js ''hi'')) fresh_world)))) =
     [Emit (Text_ev (JStr [0xE9]))] \<and>
   snd (run engine_utf8 [Stdout chunk_a, Stdout chunk_b] (fst (snd (send (JStr (js ''hi'')) fresh_world)))) =
     [Emit (Text_ev (JStr [0xFFFD, 0xFFFD]))]"
proof -
  have whole: "toString (chunk_a @ chunk_b) = text_line [0xE9] @ [LF]"
    by (simp add: utf8_defs js_def LF_def text_line_def)
  have first: "toString chunk_a =
      js ''{\"type\":\"assistant\",\"message\":{\"content\":[{\"type\":\"text\",\"text\":\"'' @ [0xFFFD]"
    by (simp add: utf8_defs js_def)
  have second: "toString chunk_b = [0xFFFD] @ js ''\"}]}}'' @ [LF]"
    by (simp add: utf8_defs js_def LF_def)
  have joined: "toString chunk_a @ toString chunk_b = text_line [0xFFFD, 0xFFFD] @ [LF]"
    by (simp add: first second text_line_def)
  have no_lf: "LF \<notin> set (toString chunk_a)"
    by (simp add: first js_def LF_def)
  have sp1: "split LF (text_line [0xE9] @ [LF]) = [text_line [0xE9], []]"
    by (rule split_text_line) (simp add: LF_def)
  have sp2: "split LF (text_line [0xFFFD, 0xFFFD] @ [LF]) = [text_line [0xFFFD, 0xFFFD], []]"
    by (rule split_text_line) (simp add: LF_def)
  have a: "snd (run engine_utf8 [Stdout (chunk_a @ chunk_b)]
      (fst (snd (send (JStr (js ''hi'')) fresh_world)))) = [Emit (Text_ev (JStr [0xE9]))]"
    by (simp add: fresh_send on_stdout_def on_stdout_text_def whole sp1 Let_def
        trim_text_line text_line_nonempty handleJsonLine_def parse_e decode_text_record)
  have b: "snd (run engine_utf8 [Stdout chunk_a, Stdout chunk_b]
      (fst (snd (send (JStr (js ''hi'')) fresh_world)))) = [Emit (Text_ev (JStr [0xFFFD, 0xFFFD]))]"
    using no_lf
    by (simp add: fresh_send on_stdout_def on_stdout_text_def split_no_sep joined sp2 Let_def
        trim_text_line text_line_nonempty handleJsonLine_def parse_fffd decode_text_record)
  from a b show ?thesis by simp
qed

section \<open>The final output of a turn\<close>

lemma handleJsonLine_output:
  assumes "handleJsonLine B line s = (s', evs)"
  shows "currentOutput s' =
           (case final_output_of B line of
              Some v \<Rightarrow> v
            | None \<Rightarrow> foldl (js_plus B) (currentOutput s) (text_deltas evs))"
proof (cases "is_result_line B line")
  case True
  from handleJsonLine_result [OF True, of s] assms True show ?thesis
    by (auto simp: final_output_of_def)
next
  case False
  from handleJsonLine_not_result [OF assms False] False show ?thesis
    by (simp add: final_output_of_def)
qed

lemma handle_lines_output_none:
  "handle_lines B ls s = (s', evs) \<Longrightarrow>
   \<forall>l \<in> set (decoded_lines ls). final_output_of B l = None \<Longrightarrow>
     currentOutput s' = foldl (js_plus B) (currentOutput s) (text_deltas evs)"
proof (induction ls arbitrary: s s' evs)
  case Nil
  then show ?case by simp
next
  case (Cons l ls)
  show ?case
  proof (cases "trim l = []")
    case True
    with Cons.prems have "handle_lines B ls s = (s', evs)"
      and "\<forall>l \<in> set (decoded_lines ls). final_output_of B l = None"
      by (simp_all add: decoded_lines_def)
    then show ?thesis by (rule Cons.IH)
  next
    case False
    obtain s1 e1 where h: "handleJsonLine B (trim l) s = (s1, e1)"
      by (cases "handleJsonLine B (trim l) s")
    obtain s2 e2 where r: "handle_lines B ls s1 = (s2, e2)" by (cases "handle_lines B ls s1")
    from Cons.prems(1) False h r have eq: "s' = s2" "evs = e1 @ e2" by simp_all
    from Cons.prems(2) False have none: "final_output_of B (trim l) = None"
      and rest: "\<forall>l \<in> set (decoded_lines ls). final_output_of B l = None"
      by (simp_all add: decoded_lines_def)
    from handleJsonLine_output [OF h] none
    have "currentOutput s1 = foldl (js_plus B) (currentOutput s) (text_deltas e1)" by simp
    with Cons.IH [OF r rest] eq show ?thesis by (simp add: text_deltas_append)
  qed
qed

lemma handle_lines_output_last:
  "handle_lines B ls s = (s', evs) \<Longrightarrow> decoded_lines ls \<noteq> [] \<Longrightarrow>
   final_output_of B (last (decoded_lines ls)) = Some v \<Longrightarrow> currentOutput s' = v"
proof (induction ls arbitrary: s' evs rule: rev_induct)
  case Nil
  then show ?case by (simp add: decoded_lines_def)
next
  case (snoc l ls)
  obtain s1 e1 where h1: "handle_lines B ls s = (s1, e1)" by (cases "handle_lines B ls s")
  show ?case
  proof (cases "trim l = []")
    case True
    with snoc.prems(1) h1 have "s' = s1"
      by (simp add: handle_lines_append)
    moreover from True have "decoded_lines (ls @ [l]) = decoded_lines ls"
      by (simp add: decoded_lines_def)
    ultimately show ?thesis using snoc.IH [OF h1] snoc.prems(2,3) by simp
  next
    case False
    obtain s2 e2 where h2: "handleJsonLine B (trim l) s1 = (s2, e2)"
      by (cases "handleJsonLine B (trim l) s1")
    from snoc.prems(1) h1 h2 False have "s' = s2"
      by (simp add: handle_lines_append)
    moreover from False have "last (decoded_lines (ls @ [l])) = trim l"
      by (simp add: decoded_lines_def)
    ultimately show ?thesis using handleJsonLine_output [OF h2] snoc.prems(3) by simp
  qed
qed

lemma run_append:
  "run B (a @ b) w =
     (case run B a w of (w1, e1) \<Rightarrow> (case run B b w1 of (w2, e2) \<Rightarrow> (w2, e1 @ e2)))"
  by (induction a arbitrary: w) (auto split: prod.splits)

text \<open>
  C3, as the code has it. A turn is started by \<open>send\<close> on an idle session, its child
  writes \<open>chunks\<close> to stdout and closes: the turn is resolved, after the events \<open>evs\<close>
  of the decoded lines, with an output \<open>out\<close>. When no decoded line is a result
  record with a non-empty (truthy) \<open>result\<close>, \<open>out\<close> is the concatenation, in order
  of arrival, of all text deltas. When the last decoded line is a result record with a
  non-empty \<open>result\<close>, \<open>out\<close> is that \<open>result\<close>, whatever text was accumulated before.
\<close>

theorem turn_final_output:
  assumes "\<not> isProcessing (this w)"
  shows "\<exists>w1 e1 w2 evs out sid.
           send m w = (Inr (turns w), w1, e1) \<and>
           run B (map Stdout chunks @ [Close code]) w1 =
             (w2, map Emit evs @ [Resolve (turns w) out sid]) \<and>
           ((\<forall>l \<in> set (turn_lines chunks). final_output_of B l = None) \<longrightarrow>
              out = concat_js B (text_deltas evs)) \<and>
           (\<forall>v. turn_lines chunks \<noteq> [] \<and> final_output_of B (last (turn_lines chunks)) = Some v \<longrightarrow>
              out = v)"
proof -
  define n where "n = turns w"
  define w1 where "w1 = w\<lparr>this := (this w)\<lparr>isProcessing := True, pendingResolve := Some n,
      pendingReject := Some n, currentOutput := JStr [], process := Some n, timeoutId := Some n\<rparr>,
      buffer := [], timers := timers w @ [n], turns := Suc n\<rparr>"
  define ls where "ls = butlast (split LF (concat (map toString chunks)))"
  have s: "send m w = (Inr (turns w), w1, [Spawn n (sessionId (this w)), StdinWrite n m])"
    using assms by (simp add: send_def Let_def w1_def n_def)
  obtain s' evs where h: "handle_lines B ls (this w1) = (s', evs)"
    by (cases "handle_lines B ls (this w1)")
  have buf: "buffer w1 = []" by (simp add: w1_def)
  have data: "run B (map Stdout chunks) w1 =
      (w1\<lparr>this := s', buffer := last (split LF (concat (map toString chunks)))\<rparr>, map Emit evs)"
    using h by (simp add: run_stdout buf on_stdout_text_def Let_def ls_def)
  from handle_lines_odf [OF h] have pend: "pendingResolve s' = Some n"
    by (simp add: only_decoder_fields_def w1_def)
  have close: "\<exists>w2. run B [Close code]
      (w1\<lparr>this := s', buffer := last (split LF (concat (map toString chunks)))\<rparr>) =
      (w2, [Resolve n (currentOutput s') (sessionId s')])"
    using pend by (simp add: on_close_def Let_def)
  then obtain w2 where close: "run B [Close code]
      (w1\<lparr>this := s', buffer := last (split LF (concat (map toString chunks)))\<rparr>) =
      (w2, [Resolve n (currentOutput s') (sessionId s')])" by blast
  have all: "run B (map Stdout chunks @ [Close code]) w1 =
      (w2, map Emit evs @ [Resolve (turns w) (currentOutput s') (sessionId s')])"
    by (simp only: run_append [of B "map Stdout chunks"] data close prod.case n_def)
  have start: "currentOutput (this w1) = JStr []" by (simp add: w1_def)
  have none: "(\<forall>l \<in> set (turn_lines chunks). final_output_of B l = None) \<longrightarrow>
      currentOutput s' = concat_js B (text_deltas evs)"
    using handle_lines_output_none [OF h] start
    by (simp add: turn_lines_def ls_def concat_js_def)
  have last: "\<forall>v. turn_lines chunks \<noteq> [] \<and>
      final_output_of B (last (turn_lines chunks)) = Some v \<longrightarrow> currentOutput s' = v"
    using handle_lines_output_last [OF h] by (simp add: turn_lines_def ls_def)
  from s all none last show ?thesis by blast
qed

section \<open>Three turns, run\<close>

lemma split_cons_sep: "c \<notin> set s \<Longrightarrow> split c (s @ c # rest) = s # split c rest"
  by (induction s) auto

lemma two_lines:
  assumes "LF \<notin> set l1" and "LF \<notin> set l2"
  shows "butlast (split LF (l1 @ [LF] @ l2 @ [LF])) = [l1, l2]"
  using assms by (simp add: split_cons_sep)

lemma fixture_lines_trim:
  "trim line_assistant_B = line_assistant_B" "trim line_delta = line_delta"
  "trim line_result_B = line_result_B" "trim line_result_empty = line_result_empty"
  "LF \<notin> set line_assistant_B" "LF \<notin> set line_delta"
  "LF \<notin> set line_result_B" "LF \<notin> set line_result_empty"
  "line_assistant_B \<noteq> []" "line_delta \<noteq> []" "line_result_B \<noteq> []" "line_result_empty \<noteq> []"
  by (simp_all add: fixture_defs trim_def is_ws_def LF_def)

lemma fixture_chunks:
  "toString chunk_text_then_empty_result = line_assistant_B @ [LF] @ line_result_empty @ [LF]"
  "toString chunk_text_then_delta = line_assistant_B @ [LF] @ line_delta @ [LF]"
  "toString chunk_text_then_result = line_assistant_B @ [LF] @ line_result_B @ [LF]"
  by (simp_all add: chunk_text_then_empty_result_def chunk_text_then_delta_def
      chunk_text_then_result_def utf8_defs fixture_defs LF_def)

lemma fixture_turn_lines:
  "turn_lines [chunk_text_then_empty_result] = [line_assistant_B, line_result_empty]"
  "turn_lines [chunk_text_then_delta] = [line_assistant_B, line_delta]"
  "turn_lines [chunk_text_then_result] = [line_assistant_B, line_result_B]"
  by (simp_all add: turn_lines_def fixture_chunks two_lines fixture_lines_trim decoded_lines_def
      del: append.simps)

lemma fixture_final_outputs:
  "final_output_of engine line_assistant_B = None"
  "final_output_of engine line_delta = None"
  "final_output_of engine line_result_empty = None"
  "final_output_of engine line_result_B = Some (JStr (js ''xyz''))"
  "is_result_line engine line_result_empty"
  "result_field engine line_result_empty = JStr []"
  by (simp_all add: final_output_of_def is_result_line_def result_field_def fixture_defs)


lemma run_one_chunk:
  assumes "toString chunk = l1 @ [LF] @ l2 @ [LF]" and "LF \<notin> set l1" and "LF \<notin> set l2"
    and "buffer w = []"
  shows "run B (map Stdout [chunk] @ [Close code]) w =
           (case handle_lines B [l1, l2] (this w) of
              (s', evs) \<Rightarrow>
                (case on_close code (w\<lparr>this := s', buffer := []\<rparr>) of
                   (w2, effs) \<Rightarrow> (w2, map Emit evs @ effs)))"
proof -
  from assms(2,3) have "split LF (l1 @ [LF] @ l2 @ [LF]) = [l1, l2, []]"
    by (simp add: split_cons_sep)
  with assms(1,4) show ?thesis
    by (simp add: on_stdout_def on_stdout_text_def Let_def split: prod.splits)
qed

lemma sent_buffer: "buffer (fst (snd (send m fresh_world))) = []"
  by (simp add: fresh_send)

lemma sent_world:
  "fst (snd (send m fresh_world)) =
     fresh_world\<lparr>this := (this fresh_world)\<lparr>isProcessing := True, pendingResolve := Some 0,
                                   pendingReject := Some 0, currentOutput := JStr [],
                                   process := Some 0, timeoutId := Some 0\<rparr>,
                  buffer := [], timers := [0], turns := Suc 0\<rparr>"
  by (simp add: fresh_send)

text \<open>
  C3 as stated fails on a result record whose final output is the empty string. The
  turn's last record is a result record that carries the final-output field, with the
  value \<open>""\<close>; the \<open>result\<close> case tests \<open>if (data.result)\<close>, so the turn is resolved with
  the accumulated text \<open>abc\<close> and not with the record's final output.
\<close>

theorem empty_result_does_not_supersede:
  "turn_lines [chunk_text_then_empty_result] = [line_assistant_B, line_result_empty] \<and>
   is_result_line engine line_result_empty \<and>
   result_field engine line_result_empty = JStr [] \<and>
   snd (run engine (map Stdout [chunk_text_then_empty_result] @ [Close (Some 0)])
          (fst (snd (send (JStr (js ''hi'')) fresh_world)))) =
     [Emit (Text_ev (JStr (js ''abc''))), Emit (Session_ev (JStr (js ''B''))),
      Emit (Result_ev record_result_empty),
      Resolve 0 (JStr (js ''abc'')) (JStr (js ''B''))] \<and>
   JStr (js ''abc'') \<noteq> result_field engine line_result_empty"
proof -
  have "snd (run engine (map Stdout [chunk_text_then_empty_result] @ [Close (Some 0)])
          (fst (snd (send (JStr (js ''hi'')) fresh_world)))) =
     [Emit (Text_ev (JStr (js ''abc''))), Emit (Session_ev (JStr (js ''B''))),
      Emit (Result_ev record_result_empty),
      Resolve 0 (JStr (js ''abc'')) (JStr (js ''B''))]"
    unfolding run_one_chunk [OF fixture_chunks(1) fixture_lines_trim(5,8) sent_buffer]
    by (simp add: sent_world fresh_session fixture_defs decoder_defs on_close_def
        clearTimeout_def)
  moreover have "JStr (js ''abc'') \<noteq> JStr []" by (simp add: js_def)
  ultimately show ?thesis
    by (simp add: fixture_turn_lines fixture_final_outputs)
qed

text \<open>
  C3 as amended, on two turns: with no result record the output is the concatenation
  \<open>abcdef\<close> of the two text deltas; with the result record \<open>xyz\<close> last, the output
  is \<open>xyz\<close> and the accumulated \<open>abc\<close> is dropped.
\<close>

theorem turn_final_output_witness:
  "\<not> isProcessing (this fresh_world) \<and>
   turn_lines [chunk_text_then_delta] = [line_assistant_B, line_delta] \<and>
   final_output_of engine line_assistant_B = None \<and>
   final_output_of engine line_delta = None \<and>
   snd (run engine (map Stdout [chunk_text_then_delta] @ [Close (Some 0)])
          (fst (snd (send (JStr (js ''hi'')) fresh_world)))) =
     [Emit (Text_ev (JStr (js ''abc''))), Emit (Session_ev (JStr (js ''B''))),
      Emit (Text_ev (JStr (js ''def''))),
      Resolve 0 (JStr (js ''abcdef'')) (JStr (js ''B''))] \<and>
   turn_lines [chunk_text_then_result] \<noteq> [] \<and>
   final_output_of engine (last (turn_lines [chunk_text_then_result])) = Some (JStr (js ''xyz'')) \<and>
   snd (run engine (map Stdout [chunk_text_then_result] @ [Close (Some 0)])
          (fst (snd (send (JStr (js ''hi'')) fresh_world)))) =
     [Emit (Text_ev (JStr (js ''abc''))), Emit (Session_ev (JStr (js ''B''))),
      Emit (Result_ev record_result_B),
      Resolve 0 (JStr (js ''xyz'')) (JStr (js ''B''))]"
proof -
  let ?w1 = "fst (snd (send (JStr (js ''hi'')) fresh_world))"
  have idle: "\<not> isProcessing (this fresh_world)" by (simp add: fresh_session)
  have none: "\<forall>l \<in> set (turn_lines [chunk_text_then_delta]). final_output_of engine l = None"
    by (simp add: fixture_turn_lines fixture_final_outputs)
  have some: "turn_lines [chunk_text_then_result] \<noteq> [] \<and>
      final_output_of engine (last (turn_lines [chunk_text_then_result])) = Some (JStr (js ''xyz''))"
    by (simp add: fixture_turn_lines fixture_final_outputs)
  have ev1: "snd (run engine (map Stdout [chunk_text_then_delta] @ [Close (Some 0)]) ?w1) =
     [Emit (Text_ev (JStr (js ''abc''))), Emit (Session_ev (JStr (js ''B''))),
      Emit (Text_ev (JStr (js ''def''))),
      Resolve 0 (concat_js engine (text_deltas
        [Text_ev (JStr (js ''abc'')), Session_ev (JStr (js ''B'')), Text_ev (JStr (js ''def''))]))
        (JStr (js ''B''))]"
  proof -
    from turn_final_output [OF idle, of "JStr (js ''hi'')" engine "[chunk_text_then_delta]" "Some 0"]
    obtain w1 e1 w2 evs out sid where
      s: "send (JStr (js ''hi'')) fresh_world = (Inr (turns fresh_world), w1, e1)" and
      r: "run engine (map Stdout [chunk_text_then_delta] @ [Close (Some 0)]) w1 =
            (w2, map Emit evs @ [Resolve (turns fresh_world) out sid])" and
      o: "(\<forall>l \<in> set (turn_lines [chunk_text_then_delta]). final_output_of engine l = None) \<longrightarrow>
            out = concat_js engine (text_deltas evs)"
      by blast
    have v: "snd (run engine (map Stdout [chunk_text_then_delta] @ [Close (Some 0)]) ?w1) =
       map Emit [Text_ev (JStr (js ''abc'')), Session_ev (JStr (js ''B'')),
          Text_ev (JStr (js ''def''))] @ [Resolve 0 (JStr (js ''abcdef'')) (JStr (js ''B''))]"
      unfolding run_one_chunk [OF fixture_chunks(2) fixture_lines_trim(5,6) sent_buffer]
    by (simp add: sent_world fresh_session fixture_defs decoder_defs on_close_def
        clearTimeout_def)
    from s have w1: "?w1 = w1" by simp
    from v r have "map Emit evs @ [Resolve (turns fresh_world) out sid] =
       map Emit [Text_ev (JStr (js ''abc'')), Session_ev (JStr (js ''B'')),
          Text_ev (JStr (js ''def''))] @ [Resolve 0 (JStr (js ''abcdef'')) (JStr (js ''B''))]"
      unfolding w1 by simp
    then have "map Emit evs = map Emit [Text_ev (JStr (js ''abc'')), Session_ev (JStr (js ''B'')),
          Text_ev (JStr (js ''def''))]" and "sid = JStr (js ''B'')"
      by simp_all
    then have evs: "evs = [Text_ev (JStr (js ''abc'')), Session_ev (JStr (js ''B'')),
          Text_ev (JStr (js ''def''))]"
      by (auto simp: map_eq_Cons_conv)
    from o none have "out = concat_js engine (text_deltas evs)" by blast
    with r evs \<open>sid = JStr (js ''B'')\<close> show ?thesis unfolding w1
      by (simp add: fresh_world_def)
  qed
  have cat: "concat_js engine (text_deltas
        [Text_ev (JStr (js ''abc'')), Session_ev (JStr (js ''B'')), Text_ev (JStr (js ''def''))]) =
        JStr (js ''abcdef'')"
    by (simp add: concat_js_def js_plus_def js_def)
  have ev2: "snd (run engine (map Stdout [chunk_text_then_result] @ [Close (Some 0)]) ?w1) =
     [Emit (Text_ev (JStr (js ''abc''))), Emit (Session_ev (JStr (js ''B''))),
      Emit (Result_ev record_result_B),
      Resolve 0 (JStr (js ''xyz'')) (JStr (js ''B''))]"
    unfolding run_one_chunk [OF fixture_chunks(3) fixture_lines_trim(5,7) sent_buffer]
    by (simp add: sent_world fresh_session fixture_defs decoder_defs on_close_def
        clearTimeout_def)
  from idle some ev1 ev2 fixture_turn_lines(2) fixture_final_outputs(1,2)
  show ?thesis by (simp only: cat) simp
qed

section \<open>Keys of the registry\<close>

lemma takeWhile_until: "x \<notin> set xs \<Longrightarrow> takeWhile (\<lambda>y. y \<noteq> x) (xs @ x # ys) = xs"
  by (induction xs) auto

lemma key_eq_left:
  assumes "session_key c u = session_key c' u'" and "underscore \<notin> set c" and "underscore \<notin> set c'"
  shows "c = c' \<and> u = u'"
proof -
  have "takeWhile (\<lambda>x. x \<noteq> underscore) (c @ underscore # u) = c"
    using assms(2) by (simp add: takeWhile_until)
  moreover have "takeWhile (\<lambda>x. x \<noteq> underscore) (c' @ underscore # u') = c'"
    using assms(3) by (simp add: takeWhile_until)
  ultimately have "c = c'" using assms(1) by (simp add: session_key_def)
  with assms(1) show ?thesis by (simp add: session_key_def)
qed

lemma key_eq_right:
  assumes "session_key c u = session_key c' u'" and "underscore \<notin> set u" and "underscore \<notin> set u'"
  shows "c = c' \<and> u = u'"
proof -
  from assms(1) have r: "rev u @ underscore # rev c = rev u' @ underscore # rev c'"
    by (simp add: session_key_def) (metis rev.simps(2) rev_append rev_rev_ident append_assoc append_Cons append_Nil)
  have "takeWhile (\<lambda>x. x \<noteq> underscore) (rev u @ underscore # rev c) = rev u"
    using assms(2) by (simp add: takeWhile_until)
  moreover have "takeWhile (\<lambda>x. x \<noteq> underscore) (rev u' @ underscore # rev c') = rev u'"
    using assms(3) by (simp add: takeWhile_until)
  ultimately have "rev u = rev u'" using r by simp
  then have "u = u'" by simp
  with assms(1) show ?thesis by (simp add: session_key_def)
qed

text \<open>
  C9, as the code has it. The registry is keyed by the concatenation of the two
  identifiers around an underscore. For two distinct pairs whose channel identifiers
  contain no underscore, or whose user identifiers contain none (Discord identifiers
  are strings of decimal digits), the keys differ, and then \<open>getOrCreateSession\<close> and
  \<open>removeSession\<close> on one pair leave the entry of the other pair as it is, and what
  \<open>getSession\<close>, \<open>getOrCreateSession\<close> and \<open>removeSession\<close> return for one pair does
  not depend on the entry of the other.
\<close>

theorem registry_keys_separate:
  assumes "(c, u) \<noteq> (c', u')"
    and "(underscore \<notin> set c \<and> underscore \<notin> set c') \<or> (underscore \<notin> set u \<and> underscore \<notin> set u')"
  shows "session_key c u \<noteq> session_key c' u' \<and>
         getSession c' u' (snd (getOrCreateSession c u opts cwd sessions)) = getSession c' u' sessions \<and>
         getSession c' u' (fst (snd (removeSession c u sessions))) = getSession c' u' sessions \<and>
         getSession c u (sessions(session_key c' u' := x)) = getSession c u sessions \<and>
         fst (getOrCreateSession c u opts cwd (sessions(session_key c' u' := x))) =
           fst (getOrCreateSession c u opts cwd sessions) \<and>
         fst (removeSession c u (sessions(session_key c' u' := x))) = fst (removeSession c u sessions)"
proof -
  from assms have k: "session_key c u \<noteq> session_key c' u'"
    using key_eq_left [of c u c' u'] key_eq_right [of c u c' u'] by auto
  then have k': "session_key c' u' \<noteq> session_key c u" by simp
  show ?thesis
    using k k'
    by (auto simp: getSession_def getOrCreateSession_def removeSession_def Let_def
        split: option.splits)
qed

text \<open>
  C9 as stated fails for pairs that concatenate to the same string: \<open>("a_b", "c")\<close>
  and \<open>("a", "b_c")\<close> are distinct, yet after a session is created for the first,
  looking up the second finds that session, and removing the second removes it.
\<close>

theorem concatenated_keys_collide:
  "(js ''a_b'', js ''c'') \<noteq> (js ''a'', js ''b_c'') \<and>
   getSession (js ''a'') (js ''b_c'') Map.empty = None \<and>
   getSession (js ''a'') (js ''b_c'')
     (snd (getOrCreateSession (js ''a_b'') (js ''c'') no_options (JStr (js ''/work'')) Map.empty)) =
     Some fresh_world \<and>
   removeSession (js ''a'') (js ''b_c'')
     (snd (getOrCreateSession (js ''a_b'') (js ''c'') no_options (JStr (js ''/work'')) Map.empty)) =
     (True, Map.empty, [])"
  by (simp add: getSession_def getOrCreateSession_def removeSession_def session_key_def
      underscore_def js_def fresh_world_def Let_def kill_def new_ClaudeSession_def)


text \<open>
  C9 as amended, for two users \<open>222\<close> and \<open>333\<close> of the channel \<open>111\<close>.
\<close>

theorem registry_keys_separate_witness:
  "(js ''111'', js ''222'') \<noteq> (js ''111'', js ''333'') \<and>
   underscore \<notin> set (js ''111'') \<and>
   session_key (js ''111'') (js ''222'') \<noteq> session_key (js ''111'') (js ''333'') \<and>
   getSession (js ''111'') (js ''333'')
     (snd (getOrCreateSession (js ''111'') (js ''222'') no_options (JStr (js ''/work''))
        [session_key (js ''111'') (js ''333'') \<mapsto> fresh_world])) = Some fresh_world \<and>
   getSession (js ''111'') (js ''333'')
     (fst (snd (removeSession (js ''111'') (js ''222'')
        [session_key (js ''111'') (js ''333'') \<mapsto> fresh_world]))) = Some fresh_world"
proof -
  have d: "(js ''111'', js ''222'') \<noteq> (js ''111'', js ''333'')" by (simp add: js_def)
  have n: "underscore \<notin> set (js ''111'')" by (simp add: js_def underscore_def)
  have g: "getSession (js ''111'') (js ''333'')
      [session_key (js ''111'') (js ''333'') \<mapsto> fresh_world] = Some fresh_world"
    by (simp add: getSession_def)
  from registry_keys_separate [OF d, of no_options "JStr (js ''/work'')"
      "[session_key (js ''111'') (js ''333'') \<mapsto> fresh_world]"] n d g
  show ?thesis by simp
qed

section \<open>The throttled reply\<close>








lemma deliveries_at_append [simp]:
  "deliveries_at k (a @ b) = deliveries_at k a @ deliveries_at k b"
  by (simp add: deliveries_at_def)

lemma deliveries_at_Nil [simp]: "deliveries_at k [] = []"
  by (simp add: deliveries_at_def)

lemma deliveries_at_Cons [simp]:
  "deliveries_at k (x # tr) = (if fst x = k then snd x # deliveries_at k tr else deliveries_at k tr)"
  by (simp add: deliveries_at_def)

lemma deliveries_at_updates [simp]:
  "deliveries_at k (map (Pair InUpdate) ds) = (if k = InUpdate then ds else [])"
  by (induction ds) auto

















text \<open>The definitions the simplifier unfolds to run a reply on concrete calls.\<close>

lemmas stream_defs = on_call_def updateMessage_def formatStatusLine_def formatStructuredOutput_def
  raw_step_def plain_formatter_def initial_stream_def splitMessage_def MAX_MESSAGE_LENGTH_def
  show_int_def show_nat.simps js_rem_def js_ToString_def processing_placeholder_def trim_def
  is_ws_def formatError_def reply_def pushed_blocks_def Let_def next_await_def catch_phase_def
  final_phase_def final_calls_def store_step_def quiet_collaborators_def failing_store_def
  await_with_tick_def


text \<open>
  The timer is cleared only in \<open>finally\<close>. When it ticks while the handler awaits the
  final edit, 3500 ms after the reply was created, \<open>updateMessage()\<close> edits the reply
  after the final edit, to the content with a status line.
\<close>

lemma tick_during_final_edit:
  "reply engine plain_formatter quiet_collaborators 0 0 demo_calls Raw
     (Succeeded (JStr (js ''abcdef'')) JNull) [await_with_tick] =
     Some [(InUpdate, Edit (js ''abc'' @ [LF] @ js ''[..........] Thinking... *(1s)*'')),
           (InUpdate, Edit (js ''abcdef'' @ [LF] @ js ''[..........] Thinking... *(2s)*'')),
           (InFinal, Edit (js ''abcdef'')),
           (InUpdate, Edit (js ''abcdef'' @ [LF] @ js ''[..........] Thinking... *(3s)*''))]"
  by (simp add: demo_calls_def stream_defs js_def LF_def)

text \<open>
  The writes to the store share the \<open>try\<close> of the final update. When one throws, the
  \<open>catch\<close> edits the reply to the error message, after the final delivery.
\<close>

lemma store_failure_replaces_reply:
  "reply engine plain_formatter failing_store 0 0 demo_calls Raw
     (Succeeded (JStr (js ''abcdef'')) JNull) [] =
     Some [(InUpdate, Edit (js ''abc'' @ [LF] @ js ''[..........] Thinking... *(1s)*'')),
           (InUpdate, Edit (js ''abcdef'' @ [LF] @ js ''[..........] Thinking... *(2s)*'')),
           (InFinal, Edit (js ''abcdef'')),
           (InCatch, Edit (js ''X **Error**'' @ [LF] @ js ''```'' @ [LF] @
                           js ''Error'' @ [LF] @ js ''```''))]"
  by (simp add: demo_calls_def stream_defs js_def LF_def)


end
